theory Spec2Isabelle
  imports Complex_Main
begin

section \<open>K-NET/KiK-net ASCII reader (obspy.io.nied.knet)\<close>

text \<open>
  A shallow embedding of \<^verbatim>\<open>obspy/io/nied/knet.py\<close>. Python exceptions are values of
  the type \<open>error\<close>; a function that can raise returns \<open>error + 'a\<close> with \<open>Inl\<close> for
  the exception. Python \<^verbatim>\<open>str\<close> and \<^verbatim>\<open>bytes\<close> are both \<open>string\<close> (a list of 8-bit
  characters, a character of a \<^verbatim>\<open>str\<close> being its code point).
\<close>

subsection \<open>Exceptions and the error monad\<close>

datatype error =
    KNETException string
  | IndexError
  | ValueError
  | KeyError
  | ZeroDivisionError
  | UnicodeError

definition bind :: "error + 'a \<Rightarrow> ('a \<Rightarrow> error + 'b) \<Rightarrow> error + 'b" where
  "bind m f = (case m of Inl e \<Rightarrow> Inl e | Inr x \<Rightarrow> f x)"

text \<open>\<^verbatim>\<open>xs[i]\<close> for a non-negative literal index: IndexError out of range.\<close>

definition getitem :: "'a list \<Rightarrow> nat \<Rightarrow> error + 'a" where
  "getitem xs i = (if i < length xs then Inr (xs ! i) else Inl IndexError)"

subsection \<open>String operations of Python used by the reader\<close>

text \<open>\<^verbatim>\<open>str.isspace\<close> on the code points below 256, and the ASCII whitespace of \<^verbatim>\<open>bytes\<close>.\<close>

definition str_isspace :: "char \<Rightarrow> bool" where
  "str_isspace c \<longleftrightarrow> c \<in> set [CHR 0x09, CHR 0x0A, CHR 0x0B, CHR 0x0C, CHR 0x0D,
      CHR 0x1C, CHR 0x1D, CHR 0x1E, CHR 0x1F, CHR 0x20, CHR 0x85, CHR 0xA0]"

definition bytes_isspace :: "char \<Rightarrow> bool" where
  "bytes_isspace c \<longleftrightarrow> c \<in> set [CHR 0x09, CHR 0x0A, CHR 0x0B, CHR 0x0C, CHR 0x0D, CHR 0x20]"

text \<open>\<^verbatim>\<open>s.startswith(name)\<close>.\<close>

definition startswith :: "string \<Rightarrow> string \<Rightarrow> bool" where
  "startswith s name \<longleftrightarrow> take (length name) s = name"

text \<open>
  \<^verbatim>\<open>s.split()\<close> without a separator: the maximal runs of non-whitespace characters, in
  order. \<open>cur\<close> is the run being read.
\<close>

fun split_run :: "(char \<Rightarrow> bool) \<Rightarrow> string \<Rightarrow> string \<Rightarrow> string list" where
  "split_run sp cur [] = (if cur = [] then [] else [cur])"
| "split_run sp cur (c # cs) =
     (if sp c then (if cur = [] then split_run sp [] cs else cur # split_run sp [] cs)
      else split_run sp (cur @ [c]) cs)"

definition split_ws :: "(char \<Rightarrow> bool) \<Rightarrow> string \<Rightarrow> string list" where
  "split_ws sp s = split_run sp [] s"

text \<open>\<^verbatim>\<open>s.strip()\<close>.\<close>

definition strip :: "(char \<Rightarrow> bool) \<Rightarrow> string \<Rightarrow> string" where
  "strip sp s = rev (dropWhile sp (rev (dropWhile sp s)))"

text \<open>\<^verbatim>\<open>s.split(sep)\<close> for a one-character separator: never the empty list.\<close>

fun split_sep :: "char \<Rightarrow> string \<Rightarrow> string list" where
  "split_sep sep [] = [[]]"
| "split_sep sep (c # cs) =
     (if c = sep then [] # split_sep sep cs
      else (case split_sep sep cs of [] \<Rightarrow> [[c]] | w # ws \<Rightarrow> (c # w) # ws))"

text \<open>\<^verbatim>\<open>' '.join(xs)\<close>.\<close>

fun join_sp :: "string list \<Rightarrow> string" where
  "join_sp [] = []"
| "join_sp [x] = x"
| "join_sp (x # y # ys) = x @ '' '' @ join_sp (y # ys)"

text \<open>\<^verbatim>\<open>re.search('[0-9]*', s).group()\<close>: the match at position 0, the leading run of
  ASCII digits, which may be empty.\<close>

definition isdigit :: "char \<Rightarrow> bool" where
  "isdigit c \<longleftrightarrow> c \<in> set ''0123456789''"

definition leading_digits :: "string \<Rightarrow> string" where
  "leading_digits s = takeWhile isdigit s"

text \<open>\<^verbatim>\<open>int(s)\<close> on a run of ASCII digits: ValueError on the empty string.\<close>

definition digit_val :: "char \<Rightarrow> nat" where
  "digit_val c = of_char c - 48"

definition digits_val :: "string \<Rightarrow> nat" where
  "digits_val s = foldl (\<lambda>a c. 10 * a + digit_val c) 0 s"

definition int_of_digits :: "string \<Rightarrow> error + nat" where
  "int_of_digits s = (if s = [] then Inl ValueError else Inr (digits_val s))"

text \<open>\<^verbatim>\<open>'%d' % n\<close> for a non-negative \<open>n\<close>.\<close>

fun str_nat :: "nat \<Rightarrow> string" where
  "str_nat n = (if n < 10 then [''0123456789'' ! n]
                else str_nat (n div 10) @ [''0123456789'' ! (n mod 10)])"

declare str_nat.simps [simp del]

text \<open>
  \<^verbatim>\<open>bytes.decode()\<close> of one line. The lines of the format are ASCII, on which the
  default codecs of Python 2 (ascii) and Python 3 (utf-8) agree and return the bytes
  as code points. A line with a byte above 0x7F is outside the text model: it is
  UnicodeError here, as under the ascii codec.
\<close>

definition ascii :: "string \<Rightarrow> bool" where
  "ascii s \<longleftrightarrow> list_all (\<lambda>c. (of_char c :: nat) < 128) s"

definition decode :: "string \<Rightarrow> error + string" where
  "decode bs = (if ascii bs then Inr bs else Inl UnicodeError)"

subsection \<open>The format sniffer\<close>

text \<open>An encoding is the decoding function of a stream's bytes, \<open>None\<close> where they do
  not decode.\<close>

type_synonym encoding = "string \<Rightarrow> string option"

text \<open>
  Modelled from the spec: \<^verbatim>\<open>_text_buffer_wrapper\<close> (obspy.core.util.misc) and the
  \<^verbatim>\<open>read\<close> of the text stream it returns are not part of this source file. The spec:
  "read exactly 11 characters (using the given or a system-default encoding). If
  decoding raises any encoding error, or fewer than 11 characters are available,
  return not matched". An encoding is the decoding function of the stream's bytes,
  \<open>None\<close> where they do not decode; \<open>read n\<close> raises UnicodeError then, and returns
  the first \<open>n\<close> characters (all of them, if there are fewer) otherwise.
\<close>

definition text_read :: "encoding \<Rightarrow> string \<Rightarrow> nat \<Rightarrow> error + string" where
  "text_read enc buf n = (case enc buf of None \<Rightarrow> Inl UnicodeError | Some txt \<Rightarrow> Inr (take n txt))"

text \<open>
  \<^verbatim>\<open>_internal_is_knet_ascii(buf, encoding=None)\<close>. \<open>preferred\<close> is what
  \<^verbatim>\<open>locale.getpreferredencoding()\<close> names. Only UnicodeError is caught.
\<close>

definition internal_is_knet_ascii :: "encoding \<Rightarrow> string \<Rightarrow> encoding option \<Rightarrow> error + bool" where
  "internal_is_knet_ascii preferred buf encoding =
     (let enc = (case encoding of None \<Rightarrow> preferred | Some e \<Rightarrow> e) in
      case text_read enc buf 11 of
        Inl UnicodeError \<Rightarrow> Inr False
      | Inl e \<Rightarrow> Inl e
      | Inr first_string \<Rightarrow>
          if length first_string \<noteq> 11 then Inr False
          else if first_string = ''Origin Time'' then Inr True
          else Inr False)"

text \<open>The ascii codec, as an encoding of the sniffer.\<close>

definition ascii_codec :: encoding where
  "ascii_codec bs = (if ascii bs then Some bs else None)"

subsection \<open>Builtins and helpers outside the source file\<close>

text \<open>
  The reader calls Python's \<^verbatim>\<open>float\<close> and float arithmetic, and obspy's
  \<^verbatim>\<open>UTCDateTime.strptime\<close>. They are parameters of the model: \<open>'f\<close> is the type of
  floats, \<open>None\<close> stands for ValueError (ZeroDivisionError for the division). A
  UTCDateTime is its number of seconds since the epoch; the strings parsed have no
  fraction of a second, and the reader only subtracts whole seconds.
\<close>

record 'f env =
  float_str :: "string \<Rightarrow> 'f option"
  float_bytes :: "string \<Rightarrow> 'f option"
  float_mul :: "'f \<Rightarrow> 'f \<Rightarrow> 'f"
  float_div :: "'f \<Rightarrow> 'f \<Rightarrow> 'f option"
  float_0_01 :: "'f"
  strptime :: "string \<Rightarrow> int option"

definition py_float :: "'f env \<Rightarrow> string \<Rightarrow> error + 'f" where
  "py_float env s = (case float_str env s of None \<Rightarrow> Inl ValueError | Some x \<Rightarrow> Inr x)"

definition py_float_bytes :: "'f env \<Rightarrow> string \<Rightarrow> error + 'f" where
  "py_float_bytes env s = (case float_bytes env s of None \<Rightarrow> Inl ValueError | Some x \<Rightarrow> Inr x)"

definition py_div :: "'f env \<Rightarrow> 'f \<Rightarrow> 'f \<Rightarrow> error + 'f" where
  "py_div env x y = (case float_div env x y of None \<Rightarrow> Inl ZeroDivisionError | Some q \<Rightarrow> Inr q)"

definition py_strptime :: "'f env \<Rightarrow> string \<Rightarrow> error + int" where
  "py_strptime env s = (case strptime env s of None \<Rightarrow> Inl ValueError | Some t \<Rightarrow> Inr t)"

subsection \<open>Dictionaries\<close>

text \<open>
  The values the reader stores, and a dictionary as an association list in insertion
  order. \<^verbatim>\<open>hdrdict['knet'][key] = v\<close> looks the inner dictionary up first.
\<close>

datatype 'f val = VTime int | VFloat 'f | VInt nat | VStr string | VDict "(string \<times> 'f val) list"

type_synonym 'f dict = "(string \<times> 'f val) list"

fun setitem :: "string \<Rightarrow> 'v \<Rightarrow> (string \<times> 'v) list \<Rightarrow> (string \<times> 'v) list" where
  "setitem k v [] = [(k, v)]"
| "setitem k v ((k', v') # d) = (if k' = k then (k, v) # d else (k', v') # setitem k v d)"

definition setknet :: "string \<Rightarrow> 'f val \<Rightarrow> 'f dict \<Rightarrow> error + 'f dict" where
  "setknet key v d =
     (case map_of d ''knet'' of
        Some (VDict kd) \<Rightarrow> Inr (setitem ''knet'' (VDict (setitem key v kd)) d)
      | _ \<Rightarrow> Inl KeyError)"

text \<open>Reading \<^verbatim>\<open>d['knet'][key]\<close> back, \<open>None\<close> where a key is missing.\<close>

definition knet_of :: "'f dict \<Rightarrow> string \<Rightarrow> 'f val option" where
  "knet_of d key = (case map_of d ''knet'' of Some (VDict kd) \<Rightarrow> map_of kd key | _ \<Rightarrow> None)"

subsection \<open>Header lines\<close>

definition mismatch_msg :: "string \<Rightarrow> string \<Rightarrow> string" where
  "mismatch_msg name line = ''Expected line to start with '' @ name @ '' but got '' @ line @ '' ''"

definition prep_hdr_line :: "string \<Rightarrow> string \<Rightarrow> error + string list" where
  "prep_hdr_line name line =
     (if \<not> startswith line name then Inl (KNETException (mismatch_msg name line))
      else Inr (split_ws str_isspace line))"

definition hdrnames :: "string list" where
  "hdrnames = [''Origin Time'', ''Lat.'', ''Long.'', ''Depth. (km)'', ''Mag.'',
     ''Station Code'', ''Station Lat.'', ''Station Long.'',
     ''Station Height(m)'', ''Record Time'', ''Sampling Freq(Hz)'',
     ''Duration Time(s)'', ''Dir.'', ''Scale Factor'', ''Max. Acc. (gal)'',
     ''Last Correction'', ''Memo.'']"

text \<open>\<^verbatim>\<open>flds = _prep_hdr_line(hdrnames[_i], hdrlines[_i])\<close>: the index is evaluated first.\<close>

definition hdr_flds :: "nat \<Rightarrow> string list \<Rightarrow> error + string list" where
  "hdr_flds i hdrlines = bind (getitem hdrlines i) (\<lambda>line. prep_hdr_line (hdrnames ! i) line)"

text \<open>\<^verbatim>\<open>dt = flds[2] + ' ' + flds[3]; dt = UTCDateTime.strptime(dt, '%Y/%m/%d %H:%M:%S')\<close>.\<close>

definition read_time :: "'f env \<Rightarrow> string list \<Rightarrow> error + int" where
  "read_time env flds =
     bind (getitem flds 2) (\<lambda>a. bind (getitem flds 3) (\<lambda>b. py_strptime env (a @ '' '' @ b)))"

text \<open>The three time lines. Only the record time has the 15 s of the data logger
  subtracted; all have the 9 hours of Japanese standard time subtracted.\<close>

definition hdr_evot :: "'f env \<Rightarrow> string list \<Rightarrow> 'f dict \<Rightarrow> error + 'f dict" where
  "hdr_evot env hdrlines hdrdict =
     bind (hdr_flds 0 hdrlines) (\<lambda>flds.
     bind (read_time env flds) (\<lambda>dt.
     setknet ''evot'' (VTime (dt - 9 * 3600)) hdrdict))"

definition hdr_starttime :: "'f env \<Rightarrow> string list \<Rightarrow> 'f dict \<Rightarrow> error + 'f dict" where
  "hdr_starttime env hdrlines hdrdict =
     bind (hdr_flds 9 hdrlines) (\<lambda>flds.
     bind (read_time env flds) (\<lambda>dt.
     Inr (setitem ''starttime'' (VTime (dt - 15 - 9 * 3600)) hdrdict)))"

definition hdr_last_correction :: "'f env \<Rightarrow> string list \<Rightarrow> 'f dict \<Rightarrow> error + 'f dict" where
  "hdr_last_correction env hdrlines hdrdict =
     bind (hdr_flds 15 hdrlines) (\<lambda>flds.
     bind (read_time env flds) (\<lambda>dt.
     setknet ''last correction'' (VTime (dt - 9 * 3600)) hdrdict))"

text \<open>A line whose token \<open>j\<close> is stored as a float under \<^verbatim>\<open>hdrdict['knet'][key]\<close>.\<close>

definition hdr_float :: "'f env \<Rightarrow> nat \<Rightarrow> nat \<Rightarrow> string \<Rightarrow> string list \<Rightarrow> 'f dict \<Rightarrow> error + 'f dict" where
  "hdr_float env i j key hdrlines hdrdict =
     bind (hdr_flds i hdrlines) (\<lambda>flds.
     bind (getitem flds j) (\<lambda>tok.
     bind (py_float env tok) (\<lambda>x.
     setknet key (VFloat x) hdrdict)))"

text \<open>The station code: \<^verbatim>\<open>stnm[-2:]\<close> and \<^verbatim>\<open>stnm[:-2]\<close> are taken when \<^verbatim>\<open>convert_stnm\<close>
  is set and the name has more than 5 characters.\<close>

definition too_long_msg :: string where
  "too_long_msg = ''Station name can't be more than 7 characters long!''"

definition split_stnm :: "bool \<Rightarrow> string \<Rightarrow> string \<times> string" where
  "split_stnm convert_stnm stnm =
     (if convert_stnm \<and> length stnm > 5
      then (take (length stnm - 2) stnm, drop (length stnm - 2) stnm)
      else (stnm, []))"

definition hdr_station :: "bool \<Rightarrow> string list \<Rightarrow> 'f dict \<Rightarrow> error + 'f dict" where
  "hdr_station convert_stnm hdrlines hdrdict =
     bind (hdr_flds 5 hdrlines) (\<lambda>flds.
     bind (getitem flds 2) (\<lambda>tok.
     case split_stnm convert_stnm tok of (stnm, location) \<Rightarrow>
       if length stnm > 7 then Inl (KNETException too_long_msg)
       else Inr (setitem ''location'' (VStr location) (setitem ''station'' (VStr stnm) hdrdict))))"

definition hdr_sampling_rate :: "string list \<Rightarrow> 'f dict \<Rightarrow> error + 'f dict" where
  "hdr_sampling_rate hdrlines hdrdict =
     bind (hdr_flds 10 hdrlines) (\<lambda>flds.
     bind (getitem flds 2) (\<lambda>freqstr.
     bind (int_of_digits (leading_digits freqstr)) (\<lambda>freq.
     Inr (setitem ''sampling_rate'' (VInt freq) hdrdict))))"

text \<open>The direction: the hyphens are removed, and the KiK-net directions 1 to 6 are
  renamed.\<close>

definition kiknetcomps :: "(string \<times> string) list" where
  "kiknetcomps = [(''1'', ''NS1''), (''2'', ''EW1''), (''3'', ''UD1''),
                  (''4'', ''NS2''), (''5'', ''EW2''), (''6'', ''UD2'')]"

definition channel_of :: "string \<Rightarrow> string" where
  "channel_of tok =
     (let channel = filter (\<lambda>c. c \<noteq> CHR ''-'') tok in
      case map_of kiknetcomps (strip str_isspace channel) of
        Some name \<Rightarrow> name
      | None \<Rightarrow> channel)"

definition hdr_channel :: "string list \<Rightarrow> 'f dict \<Rightarrow> error + 'f dict" where
  "hdr_channel hdrlines hdrdict =
     bind (hdr_flds 12 hdrlines) (\<lambda>flds.
     bind (getitem flds 1) (\<lambda>tok.
     Inr (setitem ''channel'' (VStr (channel_of tok)) hdrdict)))"

text \<open>The scale factor: \<^verbatim>\<open>num, denom = eqn.split('/')\<close> raises ValueError unless there
  are exactly two parts; the calibration is \<^verbatim>\<open>0.01 * num / denom\<close>, evaluated from the
  left.\<close>

definition calib_of :: "'f env \<Rightarrow> string \<Rightarrow> error + 'f" where
  "calib_of env eqn =
     (case split_sep CHR ''/'' eqn of
        [num, denom] \<Rightarrow>
          bind (py_float env (leading_digits num)) (\<lambda>n.
          bind (py_float env denom) (\<lambda>d.
          py_div env (float_mul env (float_0_01 env) n) d))
      | _ \<Rightarrow> Inl ValueError)"

definition hdr_calib :: "'f env \<Rightarrow> string list \<Rightarrow> 'f dict \<Rightarrow> error + 'f dict" where
  "hdr_calib env hdrlines hdrdict =
     bind (hdr_flds 13 hdrlines) (\<lambda>flds.
     bind (getitem flds 2) (\<lambda>eqn.
     bind (calib_of env eqn) (\<lambda>c.
     Inr (setitem ''calib'' (VFloat c) hdrdict))))"

text \<open>The comment is optional.\<close>

definition hdr_comment :: "string list \<Rightarrow> 'f dict \<Rightarrow> error + 'f dict" where
  "hdr_comment hdrlines hdrdict =
     bind (hdr_flds 16 hdrlines) (\<lambda>flds.
     if length flds > 1 then setknet ''comment'' (VStr (join_sp (tl flds))) hdrdict
     else Inr hdrdict)"

text \<open>The count check at the end of \<^verbatim>\<open>_read_knet_hdr\<close>, where \<^verbatim>\<open>_i\<close> is 16.\<close>

definition count_msg :: "nat \<Rightarrow> nat \<Rightarrow> string" where
  "count_msg expected got =
     ''Expected '' @ str_nat expected @ '' header lines but got '' @ str_nat got"

definition hdr_count :: "string list \<Rightarrow> 'f dict \<Rightarrow> error + 'f dict" where
  "hdr_count hdrlines hdrdict =
     (if length hdrlines \<noteq> 16 + 1
      then Inl (KNETException (count_msg (16 + 1) (length hdrlines)))
      else Inr hdrdict)"

text \<open>\<^verbatim>\<open>_read_knet_hdr(hdrlines, convert_stnm=False)\<close>: the blocks in the order of the
  source, each on the dictionary the one before has left.\<close>

definition read_knet_hdr :: "'f env \<Rightarrow> bool \<Rightarrow> string list \<Rightarrow> error + 'f dict" where
  "read_knet_hdr env convert_stnm hdrlines =
     bind (hdr_evot env hdrlines [(''knet'', VDict [])]) (\<lambda>d.
     bind (hdr_float env 1 1 ''evla'' hdrlines d) (\<lambda>d.
     bind (hdr_float env 2 1 ''evlo'' hdrlines d) (\<lambda>d.
     bind (hdr_float env 3 2 ''evdp'' hdrlines d) (\<lambda>d.
     bind (hdr_float env 4 1 ''mag'' hdrlines d) (\<lambda>d.
     bind (hdr_station convert_stnm hdrlines d) (\<lambda>d.
     bind (hdr_float env 6 2 ''stla'' hdrlines d) (\<lambda>d.
     bind (hdr_float env 7 2 ''stlo'' hdrlines d) (\<lambda>d.
     bind (hdr_float env 8 2 ''stel'' hdrlines d) (\<lambda>d.
     bind (hdr_starttime env hdrlines d) (\<lambda>d.
     bind (hdr_sampling_rate hdrlines d) (\<lambda>d.
     bind (hdr_float env 11 2 ''duration'' hdrlines d) (\<lambda>d.
     bind (hdr_channel hdrlines d) (\<lambda>d.
     bind (hdr_calib env hdrlines d) (\<lambda>d.
     bind (hdr_float env 14 3 ''accmax'' hdrlines d) (\<lambda>d.
     bind (hdr_last_correction env hdrlines d) (\<lambda>d.
     bind (hdr_comment hdrlines d) (\<lambda>d.
     hdr_count hdrlines d)))))))))))))))))"

text \<open>
  The same blocks as a list, run in order until one raises: \<open>hdr_upto i\<close> is the state
  of \<^verbatim>\<open>_read_knet_hdr\<close> when it reaches position \<open>i\<close>, the dictionary the blocks of the
  positions before \<open>i\<close> have built, or the exception one of them has raised.
\<close>

definition hdr_blocks :: "'f env \<Rightarrow> bool \<Rightarrow> (string list \<Rightarrow> 'f dict \<Rightarrow> error + 'f dict) list" where
  "hdr_blocks env convert_stnm =
     [hdr_evot env,
      hdr_float env 1 1 ''evla'',
      hdr_float env 2 1 ''evlo'',
      hdr_float env 3 2 ''evdp'',
      hdr_float env 4 1 ''mag'',
      hdr_station convert_stnm,
      hdr_float env 6 2 ''stla'',
      hdr_float env 7 2 ''stlo'',
      hdr_float env 8 2 ''stel'',
      hdr_starttime env,
      hdr_sampling_rate,
      hdr_float env 11 2 ''duration'',
      hdr_channel,
      hdr_calib env,
      hdr_float env 14 3 ''accmax'',
      hdr_last_correction env,
      hdr_comment]"

fun run_blocks :: "(string list \<Rightarrow> 'f dict \<Rightarrow> error + 'f dict) list \<Rightarrow> string list \<Rightarrow> 'f dict
    \<Rightarrow> error + 'f dict" where
  "run_blocks [] hdrlines d = Inr d"
| "run_blocks (b # bs) hdrlines d = bind (b hdrlines d) (run_blocks bs hdrlines)"

definition hdr_upto :: "'f env \<Rightarrow> bool \<Rightarrow> nat \<Rightarrow> string list \<Rightarrow> error + 'f dict" where
  "hdr_upto env convert_stnm i hdrlines =
     run_blocks (take i (hdr_blocks env convert_stnm)) hdrlines [(''knet'', VDict [])]"

text \<open>Token \<open>j\<close> of header line \<open>i\<close>, \<^verbatim>\<open>hdrlines[i].split()[j]\<close>, where both exist.\<close>

definition tok :: "string list \<Rightarrow> nat \<Rightarrow> nat \<Rightarrow> string" where
  "tok hdrlines i j = split_ws str_isspace (hdrlines ! i) ! j"

subsection \<open>Reading a file\<close>

text \<open>
  The buffer is the bytes from the current position to the end of the file, so that
  \<^verbatim>\<open>buf.tell() < size\<close> is \<open>buf \<noteq> []\<close>. \<^verbatim>\<open>buf.readline()\<close> returns the bytes up to and
  including the first newline (all of them, if there is none) and leaves the rest.
\<close>

definition readline :: "string \<Rightarrow> string \<times> string" where
  "readline buf =
     (case dropWhile (\<lambda>c. c \<noteq> CHR 0x0A) buf of
        [] \<Rightarrow> (buf, [])
      | nl # rest \<Rightarrow> (takeWhile (\<lambda>c. c \<noteq> CHR 0x0A) buf @ [nl], rest))"

lemma readline_shorter: "buf \<noteq> [] \<Longrightarrow> length (snd (readline buf)) < length buf"
  using length_dropWhile_le [of "\<lambda>c. c \<noteq> CHR 0x0A" buf]
  by (auto simp: readline_def split: list.splits)

text \<open>The lines of a buffer, as successive calls of \<^verbatim>\<open>readline\<close> return them.\<close>

function readlines :: "string \<Rightarrow> string list" where
  "readlines buf = (if buf = [] then [] else fst (readline buf) # readlines (snd (readline buf)))"
  by pat_completeness auto
termination
  by (relation "measure length") (auto simp: readline_shorter)

declare readlines.simps [simp del]

text \<open>A complete line: it ends with its only newline.\<close>

definition is_line :: "string \<Rightarrow> bool" where
  "is_line l \<longleftrightarrow> l \<noteq> [] \<and> last l = CHR 0x0A \<and> CHR 0x0A \<notin> set (butlast l)"

text \<open>
  The first loop: lines are decoded and collected until one starts with "Memo", which
  is when the header is parsed. At the end of the file without such a line,
  \<^verbatim>\<open>hdrdict\<close> is still the empty dictionary it was initialised to. The result is
  \<^verbatim>\<open>hdrdict\<close> and the buffer left for the second loop.
\<close>

function read_header :: "'f env \<Rightarrow> bool \<Rightarrow> string \<Rightarrow> string list \<Rightarrow> error + ('f dict \<times> string)" where
  "read_header env convert_stnm buf headerlines =
     (if buf = [] then Inr ([], buf)
      else bind (decode (fst (readline buf))) (\<lambda>line.
           if startswith line ''Memo''
           then bind (read_knet_hdr env convert_stnm (headerlines @ [line]))
                  (\<lambda>hdrdict. Inr (hdrdict, snd (readline buf)))
           else read_header env convert_stnm (snd (readline buf)) (headerlines @ [line])))"
  by pat_completeness auto
termination
  by (relation "measure (\<lambda>(env, convert_stnm, buf, headerlines). length buf)")
     (auto simp: readline_shorter)

declare read_header.simps [simp del]

text \<open>\<^verbatim>\<open>[float(p) for p in parts]\<close>: the first token that is no float raises.\<close>

fun floats :: "'f env \<Rightarrow> string list \<Rightarrow> error + 'f list" where
  "floats env [] = Inr []"
| "floats env (p # parts) =
     bind (py_float_bytes env p) (\<lambda>x. bind (floats env parts) (\<lambda>xs. Inr (x # xs)))"

text \<open>The second loop: the lines are not decoded, \<^verbatim>\<open>strip\<close> and \<^verbatim>\<open>split\<close> are those of
  \<^verbatim>\<open>bytes\<close>.\<close>

function read_data :: "'f env \<Rightarrow> string \<Rightarrow> 'f list \<Rightarrow> error + 'f list" where
  "read_data env buf data =
     (if buf = [] then Inr data
      else bind (floats env (split_ws bytes_isspace (strip bytes_isspace (fst (readline buf)))))
             (\<lambda>xs. read_data env (snd (readline buf)) (data @ xs)))"
  by pat_completeness auto
termination
  by (relation "measure (\<lambda>(env, buf, data). length buf)") (auto simp: readline_shorter)

declare read_data.simps [simp del]

text \<open>
  \<^verbatim>\<open>_internal_read_knet_ascii(buf, **kwargs)\<close>. The result is the pair of the dictionary
  handed to \<^verbatim>\<open>Stats\<close> and the samples handed to \<^verbatim>\<open>Trace\<close>, the one trace of the
  stream returned.
\<close>

definition internal_read_knet_ascii :: "'f env \<Rightarrow> bool \<Rightarrow> string \<Rightarrow> error + ('f dict \<times> 'f list)" where
  "internal_read_knet_ascii env convert_stnm buf =
     bind (read_header env convert_stnm buf []) (\<lambda>(hdrdict, buf).
     bind (read_data env buf []) (\<lambda>data.
     Inr (setitem ''network'' (VStr ''BO'') (setitem ''npts'' (VInt (length data)) hdrdict),
          data)))"

subsection \<open>An instance of the parameters\<close>

text \<open>
  For running the model on concrete files: floats are rationals, read exactly from
  plain decimal literals (an optional minus sign, digits, an optional fraction).
\<close>

definition dec_unsigned :: "string \<Rightarrow> rat option" where
  "dec_unsigned s =
     (let ip = takeWhile isdigit s; r = dropWhile isdigit s in
      if r = [] then (if ip = [] then None else Some (of_nat (digits_val ip)))
      else if hd r = CHR ''.'' \<and> list_all isdigit (tl r) \<and> (ip \<noteq> [] \<or> tl r \<noteq> [])
      then Some (of_nat (digits_val ip) + of_nat (digits_val (tl r)) / 10 ^ length (tl r))
      else None)"

definition dec_float :: "string \<Rightarrow> rat option" where
  "dec_float s =
     (case s of
        [] \<Rightarrow> None
      | c # cs \<Rightarrow> if c = CHR ''-'' then map_option uminus (dec_unsigned cs) else dec_unsigned s)"

text \<open>
  Modelled from the spec: \<^verbatim>\<open>UTCDateTime.strptime\<close> (obspy.core.utcdatetime) is not part
  of this source file. The spec: "parse as YYYY/MM/DD HH:MM:SS in a fixed calendar
  (no locale dependency)". The result is in seconds since 1970-01-01 00:00:00 of the
  proleptic Gregorian calendar.
\<close>

definition leap_year :: "int \<Rightarrow> bool" where
  "leap_year y \<longleftrightarrow> y mod 4 = 0 \<and> (y mod 100 \<noteq> 0 \<or> y mod 400 = 0)"

definition days_in_month :: "int \<Rightarrow> int \<Rightarrow> int" where
  "days_in_month y m =
     (if m = 2 then (if leap_year y then 29 else 28)
      else if m = 4 \<or> m = 6 \<or> m = 9 \<or> m = 11 then 30 else 31)"

definition days_from_civil :: "int \<Rightarrow> int \<Rightarrow> int \<Rightarrow> int" where
  "days_from_civil y m d =
     (let y' = (if m \<le> 2 then y - 1 else y);
          era = y' div 400;
          yoe = y' - era * 400;
          doy = (153 * (if m > 2 then m - 3 else m + 9) + 2) div 5 + d - 1;
          doe = yoe * 365 + yoe div 4 - yoe div 100 + doy
      in era * 146097 + doe - 719468)"

definition num_at :: "string \<Rightarrow> nat \<Rightarrow> nat \<Rightarrow> int" where
  "num_at s i n = int (digits_val (take n (drop i s)))"

text \<open>
  Modelled from the spec: \<^verbatim>\<open>UTCDateTime.strptime(s, '%Y/%m/%d %H:%M:%S')\<close>, as above: four
  digits of the year, two of each other field, the separators of the format, and the
  fields in their ranges; ValueError (\<open>None\<close>) otherwise.
\<close>

definition strptime_YmdHMS :: "string \<Rightarrow> int option" where
  "strptime_YmdHMS s =
     (if length s = 19
         \<and> map (\<lambda>c. if isdigit c then CHR ''9'' else c) s = ''9999/99/99 99:99:99''
      then
        (let y = num_at s 0 4; m = num_at s 5 2; d = num_at s 8 2;
             H = num_at s 11 2; M = num_at s 14 2; S = num_at s 17 2
         in if 1 \<le> y \<and> 1 \<le> m \<and> m \<le> 12 \<and> 1 \<le> d \<and> d \<le> days_in_month y m
               \<and> H \<le> 23 \<and> M \<le> 59 \<and> S \<le> 59
            then Some (days_from_civil y m d * 86400 + H * 3600 + M * 60 + S)
            else None)
      else None)"

definition ref_env :: "rat env" where
  "ref_env = \<lparr> float_str = dec_float, float_bytes = dec_float,
               float_mul = (\<lambda>x y. x * y),
               float_div = (\<lambda>x y. if y = 0 then None else Some (x / y)),
               float_0_01 = 1 / 100,
               strptime = strptime_YmdHMS \<rparr>"

subsection \<open>An example file\<close>

text \<open>A header of 17 lines, each with its newline, a body of six samples, the dictionary
  the header is read to (up to the station code, which depends on \<^verbatim>\<open>convert_stnm\<close>), and
  a stream that ends before any "Memo" line.\<close>

definition ex_hdr :: "string list" where
  "ex_hdr =
    [''Origin Time 2011/03/11 14:46:00\<newline>'',
     ''Lat. 38.103\<newline>'',
     ''Long. 142.860\<newline>'',
     ''Depth. (km) 24\<newline>'',
     ''Mag. 9.0\<newline>'',
     ''Station Code AKT012\<newline>'',
     ''Station Lat. 39.4490\<newline>'',
     ''Station Long. 140.4770\<newline>'',
     ''Station Height(m) 120\<newline>'',
     ''Record Time 2011/03/11 14:46:45\<newline>'',
     ''Sampling Freq(Hz) 100Hz\<newline>'',
     ''Duration Time(s) 300\<newline>'',
     ''Dir. N-S\<newline>'',
     ''Scale Factor 2000(gal)/8388608\<newline>'',
     ''Max. Acc. (gal) 28.363\<newline>'',
     ''Last Correction 2011/03/11 14:46:30\<newline>'',
     ''Memo. first test\<newline>'']"

definition ex_body :: string where
  "ex_body = '' 1 2  3\<newline>4.5 -6\<newline>\<newline> 7''"

definition ex_dict :: "string \<Rightarrow> string \<Rightarrow> rat dict" where
  "ex_dict station location =
    [(''knet'', VDict
        [(''evot'', VTime 1299822360), (''evla'', VFloat (38103 / 1000)),
         (''evlo'', VFloat (7143 / 50)), (''evdp'', VFloat 24), (''mag'', VFloat 9),
         (''stla'', VFloat (39449 / 1000)), (''stlo'', VFloat (140477 / 1000)),
         (''stel'', VFloat 120), (''duration'', VFloat 300),
         (''accmax'', VFloat (28363 / 1000)), (''last correction'', VTime 1299822390),
         (''comment'', VStr ''first test'')]),
     (''station'', VStr station), (''location'', VStr location),
     (''starttime'', VTime 1299822390), (''sampling_rate'', VInt 100),
     (''channel'', VStr ''NS''), (''calib'', VFloat (5 / 2097152))]"

definition ex_no_memo :: string where
  "ex_no_memo = ''Origin Time 2011/03/11 14:46:00\<newline>Lat. 38.103\<newline>''"

text \<open>The example header with the sampling frequency, the station code or the scale
  factor replaced.\<close>

definition ex_no_rate :: "string list" where
  "ex_no_rate = ex_hdr[10 := ''Sampling Freq(Hz) Hz\<newline>'']"

definition ex_st8 :: "string list" where
  "ex_st8 = ex_hdr[5 := ''Station Code ABCDEFGH\<newline>'']"

definition ex_st10 :: "string list" where
  "ex_st10 = ex_hdr[5 := ''Station Code ABCDEFGHIJ\<newline>'']"

definition ex_bad_scale :: "string list" where
  "ex_bad_scale = ex_hdr[13 := ''Scale Factor 2000(gal)\<newline>'']"

section \<open>Properties\<close>

subsection \<open>The error monad and the blocks of the header\<close>

lemma bind_Inl [simp]: "bind (Inl e) f = Inl e"
  by (simp add: bind_def)

lemma bind_Inr [simp]: "bind (Inr x) f = f x"
  by (simp add: bind_def)

lemma bind_eq_Inr: "bind m f = Inr y \<longleftrightarrow> (\<exists>x. m = Inr x \<and> f x = Inr y)"
  by (cases m) simp_all

lemma bind_eq_Inl: "bind m f = Inl e \<longleftrightarrow> m = Inl e \<or> (\<exists>x. m = Inr x \<and> f x = Inl e)"
  by (cases m) simp_all

lemma run_blocks_append:
  "run_blocks (as @ bs) hs d = bind (run_blocks as hs d) (run_blocks bs hs)"
  by (induction as arbitrary: d) (simp_all add: bind_def split: sum.splits)

lemma length_hdr_blocks [simp]: "length (hdr_blocks env conv) = 17"
  by (simp add: hdr_blocks_def)

lemma read_knet_hdr_blocks:
  "read_knet_hdr env conv hs =
     bind (run_blocks (hdr_blocks env conv) hs [(''knet'', VDict [])]) (hdr_count hs)"
  by (simp add: read_knet_hdr_def hdr_blocks_def bind_def split: sum.splits)

lemma run_blocks_split:
  assumes "i < length bs"
  shows "run_blocks bs hs d =
     bind (run_blocks (take i bs) hs d) (\<lambda>d1. bind ((bs ! i) hs d1) (run_blocks (drop (Suc i) bs) hs))"
proof -
  have step: "run_blocks ((bs ! i) # drop (Suc i) bs) hs =
      (\<lambda>d1. bind ((bs ! i) hs d1) (run_blocks (drop (Suc i) bs) hs))"
    by (rule ext) simp
  have "bs = take i bs @ (bs ! i) # drop (Suc i) bs"
    using assms by (simp add: id_take_nth_drop)
  then have "run_blocks bs hs d = run_blocks (take i bs @ (bs ! i) # drop (Suc i) bs) hs d"
    by simp
  also have "\<dots> = bind (run_blocks (take i bs) hs d) (run_blocks ((bs ! i) # drop (Suc i) bs) hs)"
    by (rule run_blocks_append)
  finally show ?thesis by (simp only: step)
qed

lemma read_knet_hdr_at:
  assumes "i < 17"
  shows "read_knet_hdr env conv hs =
     bind (hdr_upto env conv i hs) (\<lambda>d1.
     bind ((hdr_blocks env conv ! i) hs d1) (\<lambda>d2.
     bind (run_blocks (drop (Suc i) (hdr_blocks env conv)) hs d2) (hdr_count hs)))"
  using assms
  by (simp add: read_knet_hdr_blocks hdr_upto_def run_blocks_split [of i] bind_def split: sum.splits)

lemma hdr_flds_Inr:
  "hdr_flds i hs = Inr flds \<longleftrightarrow>
     i < length hs \<and> startswith (hs ! i) (hdrnames ! i) \<and> flds = split_ws str_isspace (hs ! i)"
  by (auto simp: hdr_flds_def getitem_def prep_hdr_line_def)

lemma hdr_flds_mismatch:
  "i < length hs \<Longrightarrow> \<not> startswith (hs ! i) (hdrnames ! i) \<Longrightarrow>
     hdr_flds i hs = Inl (KNETException (mismatch_msg (hdrnames ! i) (hs ! i)))"
  by (simp add: hdr_flds_def getitem_def prep_hdr_line_def)

lemma hdr_flds_short: "\<not> i < length hs \<Longrightarrow> hdr_flds i hs = Inl IndexError"
  by (simp add: hdr_flds_def getitem_def)

lemmas block_defs = hdr_evot_def hdr_float_def hdr_station_def hdr_starttime_def
  hdr_sampling_rate_def hdr_channel_def hdr_calib_def hdr_last_correction_def hdr_comment_def

lemma upt17: "[0..<17] = [0, 1, 2, 3, 4, 5, 6, 7, 8, 9, 10, 11, 12, 13, 14, 15, 16]"
  by (simp add: upt_rec)

lemma lt17_cases:
  "i < 17 \<Longrightarrow> i \<in> {0, 1, 2, 3, 4, 5, 6, 7, 8, 9, 10, 11, 12, 13, 14, 15, 16 :: nat}"
proof -
  assume "i < 17"
  then have "i \<in> set [0..<17]" by simp
  then show ?thesis by (simp only: upt17) simp
qed

lemma block_flds_Inl:
  assumes "i < 17" "hdr_flds i hs = Inl e"
  shows "(hdr_blocks env conv ! i) hs d = Inl e"
  using lt17_cases [OF assms(1)] assms(2)
  by (auto simp: hdr_blocks_def block_defs)


lemma block_mismatch:
  assumes "i < 17" "i < length hs" "\<not> startswith (hs ! i) (hdrnames ! i)"
  shows "(hdr_blocks env conv ! i) hs d = Inl (KNETException (mismatch_msg (hdrnames ! i) (hs ! i)))"
  using assms by (intro block_flds_Inl hdr_flds_mismatch)

lemma read_knet_hdr_flds:
  assumes "i < 17" "read_knet_hdr env conv hs = Inr h"
  shows "\<exists>flds. hdr_flds i hs = Inr flds"
proof (cases "hdr_flds i hs")
  case (Inl e)
  then have "(hdr_blocks env conv ! i) hs d = Inl e" for d
    using assms(1) by (rule block_flds_Inl [rotated])
  then have "\<exists>e'. read_knet_hdr env conv hs = Inl e'"
    by (cases "hdr_upto env conv i hs") (simp_all add: read_knet_hdr_at [OF assms(1)])
  with assms(2) show ?thesis by simp
next
  case (Inr flds)
  then show ?thesis by simp
qed

lemma read_knet_hdr_upto:
  assumes "i < 17" "read_knet_hdr env conv hs = Inr h"
  shows "\<exists>d. hdr_upto env conv i hs = Inr d"
  using assms(2) by (auto simp: read_knet_hdr_at [OF assms(1)] bind_eq_Inr)

lemma hdr_flds_cong: "getitem hs' i = getitem hs i \<Longrightarrow> hdr_flds i hs' = hdr_flds i hs"
  by (simp add: hdr_flds_def)

lemma hdr_flds_take: "i < n \<Longrightarrow> hdr_flds i (take n hs) = hdr_flds i hs"
  by (rule hdr_flds_cong) (simp add: getitem_def)

lemma run_blocks_cong:
  "(\<And>b d. b \<in> set bs \<Longrightarrow> b hs' d = b hs d) \<Longrightarrow> run_blocks bs hs' d = run_blocks bs hs d"
proof (induction bs arbitrary: d)
  case Nil
  then show ?case by simp
next
  case (Cons b bs)
  have "run_blocks bs hs' = run_blocks bs hs"
    by (rule ext) (rule Cons.IH, rule Cons.prems, simp)
  moreover have "b hs' d = b hs d"
    by (rule Cons.prems) simp
  ultimately show ?case by simp
qed

lemma run_blocks_take17:
  "run_blocks (hdr_blocks env conv) (take 17 hs) d = run_blocks (hdr_blocks env conv) hs d"
  by (rule run_blocks_cong) (auto simp: hdr_blocks_def block_defs hdr_flds_take)

lemma str_nat_17: "str_nat 17 = ''17''"
  by (simp add: str_nat.simps)

subsection \<open>Lines and tokens of a buffer\<close>

lemma readline_append: "fst (readline buf) @ snd (readline buf) = buf"
proof (cases "dropWhile (\<lambda>c. c \<noteq> CHR 0x0A) buf")
  case Nil
  then show ?thesis by (simp add: readline_def del: dropWhile_eq_Nil_conv)
next
  case (Cons nl rest)
  have "takeWhile (\<lambda>c. c \<noteq> CHR 0x0A) buf @ dropWhile (\<lambda>c. c \<noteq> CHR 0x0A) buf = buf"
    by (rule takeWhile_dropWhile_id)
  with Cons show ?thesis by (simp add: readline_def)
qed

lemma ascii_append [simp]: "ascii (a @ b) \<longleftrightarrow> ascii a \<and> ascii b"
  by (simp add: ascii_def)

lemma ascii_readline:
  assumes "ascii buf"
  shows "ascii (fst (readline buf))" and "ascii (snd (readline buf))"
proof -
  have "ascii (fst (readline buf) @ snd (readline buf))"
    using assms by (simp only: readline_append)
  then show "ascii (fst (readline buf))" and "ascii (snd (readline buf))" by simp_all
qed

lemma read_header_no_memo:
  "ascii buf \<Longrightarrow> list_all (\<lambda>l. \<not> startswith l ''Memo'') (readlines buf) \<Longrightarrow>
     read_header env conv buf hl = Inr ([], [])"
proof (induction buf arbitrary: hl rule: readlines.induct)
  case (1 buf)
  show ?case
  proof (cases "buf = []")
    case True
    then show ?thesis by (simp add: read_header.simps)
  next
    case False
    from False "1.prems"(2)
    have nm: "\<not> startswith (fst (readline buf)) ''Memo''"
      and rest: "list_all (\<lambda>l. \<not> startswith l ''Memo'') (readlines (snd (readline buf)))"
      by (simp_all add: readlines.simps [of buf])
    have dec: "decode (fst (readline buf)) = Inr (fst (readline buf))"
      using ascii_readline(1) [OF "1.prems"(1)] by (simp add: decode_def)
    have "read_header env conv buf hl =
        read_header env conv (snd (readline buf)) (hl @ [fst (readline buf)])"
      using False nm dec by (subst read_header.simps) simp
    also have "\<dots> = Inr ([], [])"
      using False ascii_readline(2) [OF "1.prems"(1)] rest by (rule "1.IH")
    finally show ?thesis .
  qed
qed

lemma read_data_Nil [simp]: "read_data env [] data = Inr data"
  by (simp add: read_data.simps)

lemma no_memo_result:
  assumes "ascii buf" and "list_all (\<lambda>l. \<not> startswith l ''Memo'') (readlines buf)"
  shows "internal_read_knet_ascii env conv buf =
           Inr ([(''npts'', VInt 0), (''network'', VStr ''BO'')], [])"
  using assms by (simp add: internal_read_knet_ascii_def read_header_no_memo)

lemma readline_is_line: "is_line l \<Longrightarrow> readline (l @ rest) = (l, rest)"
proof -
  assume "is_line l"
  then obtain s where l: "l = s @ [CHR 0x0A]" and s: "CHR 0x0A \<notin> set s"
    by (metis append_butlast_last_id is_line_def)
  have d: "dropWhile (\<lambda>c. c \<noteq> CHR 0x0A) (s @ CHR 0x0A # rest) = CHR 0x0A # rest"
    using s by (auto simp: dropWhile_append3)
  have t: "takeWhile (\<lambda>c. c \<noteq> CHR 0x0A) (s @ CHR 0x0A # rest) = s"
    using s by (auto simp: takeWhile_tail)
  show ?thesis by (simp add: readline_def l d t)
qed

lemma read_header_lines:
  assumes "list_all (\<lambda>l. is_line l \<and> ascii l \<and> \<not> startswith l ''Memo'') pre"
    and "is_line l" and "ascii l" and "startswith l ''Memo''"
  shows "read_header env conv (concat pre @ l @ body) hl =
           bind (read_knet_hdr env conv (hl @ pre @ [l])) (\<lambda>h. Inr (h, body))"
  using assms(1)
proof (induction pre arbitrary: hl)
  case Nil
  have ne: "l \<noteq> []" using assms(2) by (simp add: is_line_def)
  show ?case
    using ne assms(2-4) by (subst read_header.simps) (simp add: readline_is_line decode_def)
next
  case (Cons p pre)
  then have p: "is_line p" "ascii p" "\<not> startswith p ''Memo''"
    and pre: "list_all (\<lambda>l. is_line l \<and> ascii l \<and> \<not> startswith l ''Memo'') pre"
    by simp_all
  have ne: "p \<noteq> []" using p(1) by (simp add: is_line_def)
  have "read_header env conv (p @ concat pre @ l @ body) hl =
      read_header env conv (concat pre @ l @ body) (hl @ [p])"
    using ne p by (subst read_header.simps) (simp add: readline_is_line decode_def)
  then show ?case using Cons.IH [OF pre, of "hl @ [p]"] by simp
qed

lemma split_run_snoc_space:
  "sp c \<Longrightarrow> split_run sp cur (a @ [c]) = split_run sp cur a"
  by (induction a arbitrary: cur) simp_all

lemma split_run_spaces:
  "list_all sp ws \<Longrightarrow> split_run sp cur (a @ ws) = split_run sp cur a"
proof (induction ws rule: rev_induct)
  case Nil
  then show ?case by simp
next
  case (snoc w ws)
  then have "split_run sp cur ((a @ ws) @ [w]) = split_run sp cur (a @ ws)"
    by (intro split_run_snoc_space) simp
  with snoc show ?case by simp
qed

lemma split_run_cut:
  "sp c \<Longrightarrow> split_run sp cur (a @ c # b) = split_run sp cur (a @ [c]) @ split_run sp [] b"
  by (induction a arbitrary: cur) simp_all

lemma split_run_dropWhile:
  "split_run sp [] (dropWhile sp s) = split_run sp [] s"
  by (induction s) simp_all

lemma split_ws_strip: "split_ws sp (strip sp s) = split_ws sp s"
proof -
  let ?t = "dropWhile sp s"
  have "?t = rev (dropWhile sp (rev ?t)) @ rev (takeWhile sp (rev ?t))"
    by (metis rev_append rev_rev_ident takeWhile_dropWhile_id)
  moreover have "list_all sp (rev (takeWhile sp (rev ?t)))"
    by (simp add: list_all_iff) (meson set_takeWhileD)
  ultimately have "split_run sp [] ?t = split_run sp [] (rev (dropWhile sp (rev ?t)))"
    by (metis split_run_spaces)
  then show ?thesis
    by (simp add: split_ws_def strip_def split_run_dropWhile)
qed

lemma split_ws_readline:
  assumes "buf \<noteq> []"
  shows "split_ws bytes_isspace buf =
           split_ws bytes_isspace (strip bytes_isspace (fst (readline buf)))
           @ split_ws bytes_isspace (snd (readline buf))"
proof (cases "dropWhile (\<lambda>c. c \<noteq> CHR 0x0A) buf")
  case Nil
  then have "readline buf = (buf, [])"
    by (simp add: readline_def del: dropWhile_eq_Nil_conv)
  then show ?thesis by (simp add: split_ws_strip) (simp add: split_ws_def)
next
  case (Cons nl rest)
  let ?s = "takeWhile (\<lambda>c. c \<noteq> CHR 0x0A) buf"
  have "nl = hd (dropWhile (\<lambda>c. c \<noteq> CHR 0x0A) buf)" using Cons by simp
  then have nl: "nl = CHR 0x0A"
    using Cons hd_dropWhile [of "\<lambda>c. c \<noteq> CHR 0x0A" buf] by auto
  have buf: "buf = ?s @ nl # rest"
    using Cons takeWhile_dropWhile_id [of "\<lambda>c. c \<noteq> CHR 0x0A" buf] by simp
  have rl: "readline buf = (?s @ [nl], rest)"
    using Cons by (simp add: readline_def)
  have sp: "bytes_isspace nl" by (simp add: nl bytes_isspace_def)
  have "split_ws bytes_isspace buf = split_ws bytes_isspace (?s @ nl # rest)"
    using buf by simp
  also have "\<dots> = split_ws bytes_isspace (?s @ [nl]) @ split_ws bytes_isspace rest"
    unfolding split_ws_def using sp by (rule split_run_cut [of bytes_isspace nl])
  finally show ?thesis by (simp add: rl split_ws_strip)
qed

lemma floats_append:
  "floats env (a @ b) =
     bind (floats env a) (\<lambda>xs. bind (floats env b) (\<lambda>ys. Inr (xs @ ys)))"
  by (induction a) (simp_all add: bind_def split: sum.splits)

lemma read_data_tokens:
  "read_data env buf data =
     bind (floats env (split_ws bytes_isspace buf)) (\<lambda>xs. Inr (data @ xs))"
proof (induction env buf data rule: read_data.induct)
  case (1 env buf data)
  show ?case
  proof (cases "buf = []")
    case True
    then show ?thesis by (simp add: split_ws_def)
  next
    case False
    let ?a = "split_ws bytes_isspace (strip bytes_isspace (fst (readline buf)))"
    let ?b = "split_ws bytes_isspace (snd (readline buf))"
    have "read_data env buf data =
        bind (floats env ?a) (\<lambda>xs. read_data env (snd (readline buf)) (data @ xs))"
      using False by (subst read_data.simps) simp
    also have "\<dots> = bind (floats env ?a)
        (\<lambda>xs. bind (floats env ?b) (\<lambda>ys. Inr ((data @ xs) @ ys)))"
      using "1.IH" [OF False] by (cases "floats env ?a") simp_all
    also have "\<dots> = bind (floats env (?a @ ?b)) (\<lambda>xs. Inr (data @ xs))"
      by (simp add: floats_append bind_def split: sum.splits)
    finally show ?thesis by (simp add: split_ws_readline [OF False])
  qed
qed

lemma floats_all:
  "list_all (\<lambda>t. float_bytes env t \<noteq> None) ts \<Longrightarrow>
     floats env ts = Inr (map (\<lambda>t. the (float_bytes env t)) ts)"
  by (induction ts) (auto simp: py_float_bytes_def)

lemma map_of_setitem:
  "map_of (setitem k v d) k' = (if k' = k then Some v else map_of d k')"
  by (induction d) auto

subsection \<open>What the blocks store and what they leave unchanged\<close>

lemma read_knet_hdr_split:
  assumes "i < 17" and "read_knet_hdr env conv hs = Inr h"
  shows "\<exists>d1 d2. hdr_upto env conv i hs = Inr d1
    \<and> (hdr_blocks env conv ! i) hs d1 = Inr d2
    \<and> run_blocks (drop (Suc i) (hdr_blocks env conv)) hs d2 = Inr h"
proof -
  from assms(2) obtain d1 d2 d3 where "hdr_upto env conv i hs = Inr d1"
    and "(hdr_blocks env conv ! i) hs d1 = Inr d2"
    and "run_blocks (drop (Suc i) (hdr_blocks env conv)) hs d2 = Inr d3"
    and "hdr_count hs d3 = Inr h"
    by (auto simp: read_knet_hdr_at [OF assms(1)] bind_eq_Inr)
  moreover from this have "d3 = h" by (simp add: hdr_count_def split: if_splits)
  ultimately show ?thesis by simp
qed

lemma setknet_Inr:
  "setknet key v d = Inr d' \<Longrightarrow>
     \<exists>kd. map_of d ''knet'' = Some (VDict kd) \<and> d' = setitem ''knet'' (VDict (setitem key v kd)) d"
  by (auto simp: setknet_def split: option.splits val.splits)

lemma setknet_top:
  "setknet key v d = Inr d' \<Longrightarrow> K \<noteq> ''knet'' \<Longrightarrow> map_of d' K = map_of d K"
  by (auto dest!: setknet_Inr simp: map_of_setitem)

lemma setknet_knet_of:
  "setknet key v d = Inr d' \<Longrightarrow> knet_of d' K = (if K = key then Some v else knet_of d K)"
  by (auto dest!: setknet_Inr simp: map_of_setitem knet_of_def)

lemma setknet_knet_other:
  "setknet key v d = Inr d' \<Longrightarrow> K \<noteq> key \<Longrightarrow> knet_of d' K = knet_of d K"
  by (simp add: setknet_knet_of)

lemma setitem_knet_of:
  "k \<noteq> ''knet'' \<Longrightarrow> knet_of (setitem k v d) K = knet_of d K"
  by (simp add: knet_of_def map_of_setitem)

lemma run_blocks_frame:
  assumes "\<And>b d d'. b \<in> set bs \<Longrightarrow> b hs d = Inr d' \<Longrightarrow> P d' = P d"
    and "run_blocks bs hs d = Inr d'"
  shows "P d' = P d"
  using assms
proof (induction bs arbitrary: d)
  case Nil
  then show ?case by simp
next
  case (Cons b bs)
  from Cons.prems(2) obtain d1 where b: "b hs d = Inr d1" and r: "run_blocks bs hs d1 = Inr d'"
    by (auto simp: bind_eq_Inr)
  have "P d' = P d1" using Cons.prems(1) r by (intro Cons.IH) auto
  moreover have "P d1 = P d" using Cons.prems(1) b by auto
  ultimately show ?case by simp
qed

text \<open>What each kind of block leaves unchanged.\<close>

lemma hdr_float_top:
  "hdr_float env i j key hs d = Inr d' \<Longrightarrow> K \<noteq> ''knet'' \<Longrightarrow> map_of d' K = map_of d K"
  by (auto simp: hdr_float_def bind_eq_Inr dest: setknet_top)

lemma hdr_last_correction_top:
  "hdr_last_correction env hs d = Inr d' \<Longrightarrow> K \<noteq> ''knet'' \<Longrightarrow> map_of d' K = map_of d K"
  by (auto simp: hdr_last_correction_def bind_eq_Inr dest: setknet_top)

lemma hdr_comment_top:
  "hdr_comment hs d = Inr d' \<Longrightarrow> K \<noteq> ''knet'' \<Longrightarrow> map_of d' K = map_of d K"
  by (auto simp: hdr_comment_def bind_eq_Inr dest: setknet_top split: if_splits)

lemma hdr_starttime_top:
  "hdr_starttime env hs d = Inr d' \<Longrightarrow> K \<noteq> ''starttime'' \<Longrightarrow> map_of d' K = map_of d K"
  by (auto simp: hdr_starttime_def bind_eq_Inr map_of_setitem)

lemma hdr_sampling_rate_top:
  "hdr_sampling_rate hs d = Inr d' \<Longrightarrow> K \<noteq> ''sampling_rate'' \<Longrightarrow> map_of d' K = map_of d K"
  by (auto simp: hdr_sampling_rate_def bind_eq_Inr map_of_setitem)

lemma hdr_channel_top:
  "hdr_channel hs d = Inr d' \<Longrightarrow> K \<noteq> ''channel'' \<Longrightarrow> map_of d' K = map_of d K"
  by (auto simp: hdr_channel_def bind_eq_Inr map_of_setitem)

lemma hdr_calib_top:
  "hdr_calib env hs d = Inr d' \<Longrightarrow> K \<noteq> ''calib'' \<Longrightarrow> map_of d' K = map_of d K"
  by (auto simp: hdr_calib_def bind_eq_Inr map_of_setitem)

lemma hdr_float_knet:
  "hdr_float env i j key hs d = Inr d' \<Longrightarrow> K \<noteq> key \<Longrightarrow> knet_of d' K = knet_of d K"
  by (auto simp: hdr_float_def bind_eq_Inr intro: setknet_knet_other)

lemma hdr_last_correction_knet:
  "hdr_last_correction env hs d = Inr d' \<Longrightarrow> K \<noteq> ''last correction'' \<Longrightarrow> knet_of d' K = knet_of d K"
  by (auto simp: hdr_last_correction_def bind_eq_Inr intro: setknet_knet_other)

lemma hdr_comment_knet:
  "hdr_comment hs d = Inr d' \<Longrightarrow> K \<noteq> ''comment'' \<Longrightarrow> knet_of d' K = knet_of d K"
  by (auto simp: hdr_comment_def bind_eq_Inr intro: setknet_knet_other split: if_splits)

lemma hdr_station_knet:
  "hdr_station conv hs d = Inr d' \<Longrightarrow> knet_of d' K = knet_of d K"
  by (auto simp: hdr_station_def bind_eq_Inr setitem_knet_of split_beta split: if_splits)

lemma hdr_starttime_knet:
  "hdr_starttime env hs d = Inr d' \<Longrightarrow> knet_of d' K = knet_of d K"
  by (auto simp: hdr_starttime_def bind_eq_Inr setitem_knet_of)

lemma hdr_sampling_rate_knet:
  "hdr_sampling_rate hs d = Inr d' \<Longrightarrow> knet_of d' K = knet_of d K"
  by (auto simp: hdr_sampling_rate_def bind_eq_Inr setitem_knet_of)

lemma hdr_channel_knet:
  "hdr_channel hs d = Inr d' \<Longrightarrow> knet_of d' K = knet_of d K"
  by (auto simp: hdr_channel_def bind_eq_Inr setitem_knet_of)

lemma hdr_calib_knet:
  "hdr_calib env hs d = Inr d' \<Longrightarrow> knet_of d' K = knet_of d K"
  by (auto simp: hdr_calib_def bind_eq_Inr setitem_knet_of)

lemmas top_frames = hdr_float_top hdr_last_correction_top hdr_comment_top hdr_starttime_top
  hdr_sampling_rate_top hdr_channel_top hdr_calib_top

lemmas knet_frames = hdr_float_knet hdr_last_correction_knet hdr_comment_knet hdr_station_knet
  hdr_starttime_knet hdr_sampling_rate_knet hdr_channel_knet hdr_calib_knet

text \<open>The value a block stores.\<close>

lemma read_time_Inr:
  "read_time env flds = Inr t \<longleftrightarrow>
     3 < length flds \<and> strptime env (flds ! 2 @ '' '' @ flds ! 3) = Some t"
  by (auto simp: read_time_def bind_eq_Inr getitem_def py_strptime_def split: option.splits)

lemma channel_after:
  assumes "read_knet_hdr env conv hs = Inr h"
  shows "1 < length (split_ws str_isspace (hs ! 12))
    \<and> map_of h ''channel'' = Some (VStr (channel_of (tok hs 12 1)))"
proof -
  from read_knet_hdr_split [of 12, OF _ assms]
  obtain d1 d2 where b: "(hdr_blocks env conv ! 12) hs d1 = Inr d2"
    and r: "run_blocks (drop (Suc 12) (hdr_blocks env conv)) hs d2 = Inr h"
    by auto
  from b have 1: "1 < length (split_ws str_isspace (hs ! 12))"
    and 2: "map_of d2 ''channel'' = Some (VStr (channel_of (tok hs 12 1)))"
    by (auto simp: hdr_blocks_def hdr_channel_def bind_eq_Inr hdr_flds_Inr getitem_def
        map_of_setitem tok_def split: if_splits)
  have "map_of h ''channel'' = map_of d2 ''channel''"
    using _ r by (rule run_blocks_frame) (auto simp: hdr_blocks_def elim: top_frames)
  with 1 2 show ?thesis by simp
qed

subsection \<open>The example file, evaluated\<close>

lemmas eval_defs = dec_float_def dec_unsigned_def isdigit_def digits_val_def digit_val_def Let_def
  split_ws_def str_isspace_def prep_hdr_line_def startswith_def hdrnames_def
  py_float_def py_strptime_def py_div_def read_time_def ref_env_def leading_digits_def int_of_digits_def
  strptime_YmdHMS_def num_at_def days_from_civil_def days_in_month_def leap_year_def
  calib_of_def channel_of_def kiknetcomps_def strip_def split_stnm_def too_long_msg_def

lemma ev0: "getitem hs 0 = Inr (ex_hdr ! 0) \<Longrightarrow>
    hdr_evot ref_env hs d = setknet ''evot'' (VTime 1299822360) d"
  by (simp add: hdr_evot_def hdr_flds_def ex_hdr_def eval_defs getitem_def)

lemma ev1: "getitem hs 1 = Inr (ex_hdr ! 1) \<Longrightarrow>
    hdr_float ref_env 1 1 ''evla'' hs d = setknet ''evla'' (VFloat (38103 / 1000)) d"
  by (simp add: hdr_float_def hdr_flds_def ex_hdr_def eval_defs getitem_def)

lemma ev2: "getitem hs 2 = Inr (ex_hdr ! 2) \<Longrightarrow>
    hdr_float ref_env 2 1 ''evlo'' hs d = setknet ''evlo'' (VFloat (7143 / 50)) d"
  by (simp add: hdr_float_def hdr_flds_def ex_hdr_def eval_defs getitem_def)

lemma ev3: "getitem hs 3 = Inr (ex_hdr ! 3) \<Longrightarrow>
    hdr_float ref_env 3 2 ''evdp'' hs d = setknet ''evdp'' (VFloat 24) d"
  by (simp add: hdr_float_def hdr_flds_def ex_hdr_def eval_defs getitem_def)

lemma ev4: "getitem hs 4 = Inr (ex_hdr ! 4) \<Longrightarrow>
    hdr_float ref_env 4 1 ''mag'' hs d = setknet ''mag'' (VFloat 9) d"
  by (simp add: hdr_float_def hdr_flds_def ex_hdr_def eval_defs getitem_def)

lemma ev5: "getitem hs 5 = Inr (ex_hdr ! 5) \<Longrightarrow>
    hdr_station conv hs d =
      Inr (setitem ''location'' (VStr (if conv then ''12'' else ''''))
            (setitem ''station'' (VStr (if conv then ''AKT0'' else ''AKT012'')) d))"
  by (simp add: hdr_station_def hdr_flds_def ex_hdr_def eval_defs getitem_def)

lemma ev6: "getitem hs 6 = Inr (ex_hdr ! 6) \<Longrightarrow>
    hdr_float ref_env 6 2 ''stla'' hs d = setknet ''stla'' (VFloat (39449 / 1000)) d"
  by (simp add: hdr_float_def hdr_flds_def ex_hdr_def eval_defs getitem_def)

lemma ev7: "getitem hs 7 = Inr (ex_hdr ! 7) \<Longrightarrow>
    hdr_float ref_env 7 2 ''stlo'' hs d = setknet ''stlo'' (VFloat (140477 / 1000)) d"
  by (simp add: hdr_float_def hdr_flds_def ex_hdr_def eval_defs getitem_def)

lemma ev8: "getitem hs 8 = Inr (ex_hdr ! 8) \<Longrightarrow>
    hdr_float ref_env 8 2 ''stel'' hs d = setknet ''stel'' (VFloat 120) d"
  by (simp add: hdr_float_def hdr_flds_def ex_hdr_def eval_defs getitem_def)

lemma ev9: "getitem hs 9 = Inr (ex_hdr ! 9) \<Longrightarrow>
    hdr_starttime ref_env hs d = Inr (setitem ''starttime'' (VTime 1299822390) d)"
  by (simp add: hdr_starttime_def hdr_flds_def ex_hdr_def eval_defs getitem_def)

lemma ev10: "getitem hs 10 = Inr (ex_hdr ! 10) \<Longrightarrow>
    hdr_sampling_rate hs d = Inr (setitem ''sampling_rate'' (VInt 100) d)"
  by (simp add: hdr_sampling_rate_def hdr_flds_def ex_hdr_def eval_defs getitem_def)

lemma ev11: "getitem hs 11 = Inr (ex_hdr ! 11) \<Longrightarrow>
    hdr_float ref_env 11 2 ''duration'' hs d = setknet ''duration'' (VFloat 300) d"
  by (simp add: hdr_float_def hdr_flds_def ex_hdr_def eval_defs getitem_def)

lemma ev12: "getitem hs 12 = Inr (ex_hdr ! 12) \<Longrightarrow>
    hdr_channel hs d = Inr (setitem ''channel'' (VStr ''NS'') d)"
  by (simp add: hdr_channel_def hdr_flds_def ex_hdr_def eval_defs getitem_def)

lemma ev13: "getitem hs 13 = Inr (ex_hdr ! 13) \<Longrightarrow>
    hdr_calib ref_env hs d = Inr (setitem ''calib'' (VFloat (5 / 2097152)) d)"
  by (simp add: hdr_calib_def hdr_flds_def ex_hdr_def eval_defs getitem_def)

lemma ev14: "getitem hs 14 = Inr (ex_hdr ! 14) \<Longrightarrow>
    hdr_float ref_env 14 3 ''accmax'' hs d = setknet ''accmax'' (VFloat (28363 / 1000)) d"
  by (simp add: hdr_float_def hdr_flds_def ex_hdr_def eval_defs getitem_def)

lemma ev15: "getitem hs 15 = Inr (ex_hdr ! 15) \<Longrightarrow>
    hdr_last_correction ref_env hs d = setknet ''last correction'' (VTime 1299822390) d"
  by (simp add: hdr_last_correction_def hdr_flds_def ex_hdr_def eval_defs getitem_def)

lemma ev16: "getitem hs 16 = Inr (ex_hdr ! 16) \<Longrightarrow>
    hdr_comment hs d = setknet ''comment'' (VStr ''first test'') d"
  by (simp add: hdr_comment_def hdr_flds_def ex_hdr_def eval_defs getitem_def)

lemma length_ex_hdr [simp]: "length ex_hdr = 17"
  by (simp add: ex_hdr_def)

text \<open>A header that differs from the example in its station line only.\<close>

lemma ex_variant:
  assumes "length hs = 17" and "\<And>i. i < 17 \<Longrightarrow> i \<noteq> 5 \<Longrightarrow> hs ! i = ex_hdr ! i"
    and "\<And>d :: rat dict. hdr_station conv hs d =
           Inr (setitem ''location'' (VStr loc) (setitem ''station'' (VStr st) d))"
  shows "read_knet_hdr ref_env conv hs = Inr (ex_dict st loc)"
proof -
  have g: "getitem hs i = Inr (ex_hdr ! i)" if "i < 17" "i \<noteq> 5" for i
    using that assms(1,2) by (simp add: getitem_def)
  note ev = ev0 [OF g] ev1 [OF g] ev2 [OF g] ev3 [OF g] ev4 [OF g] ev6 [OF g] ev7 [OF g]
    ev8 [OF g] ev9 [OF g] ev10 [OF g] ev11 [OF g] ev12 [OF g] ev13 [OF g] ev14 [OF g]
    ev15 [OF g] ev16 [OF g]
  show ?thesis
    by (simp add: read_knet_hdr_def ev assms(1,3) setknet_def ex_dict_def hdr_count_def
        del: One_nat_def)
qed

lemma ex_hdr_result:
  "read_knet_hdr ref_env conv ex_hdr =
     Inr (ex_dict (if conv then ''AKT0'' else ''AKT012'') (if conv then ''12'' else ''''))"
  by (rule ex_variant) (simp_all add: ev5 getitem_def)

lemma read_knet_hdr_length: "read_knet_hdr env conv hs = Inr h \<Longrightarrow> length hs = 17"
  by (auto simp: read_knet_hdr_blocks bind_eq_Inr hdr_count_def split: if_splits)

lemma read_knet_hdr_labels:
  assumes "read_knet_hdr env conv hs = Inr h" and "i < 17"
  shows "startswith (hs ! i) (hdrnames ! i)"
  using read_knet_hdr_flds [OF assms(2,1)] by (auto simp: hdr_flds_Inr)

lemma startswith_take:
  "startswith l name \<Longrightarrow> k \<le> length name \<Longrightarrow> take k l = take k name"
  by (metis min.absorb1 startswith_def take_take)

lemma label_not_memo:
  assumes "i < 16" and "startswith l (hdrnames ! i)"
  shows "\<not> startswith l ''Memo''"
proof
  assume m: "startswith l ''Memo''"
  have "i < 17" using assms(1) by simp
  then have len: "2 \<le> length (hdrnames ! i)"
    by (auto dest!: lt17_cases simp: hdrnames_def)
  have "take 2 (hdrnames ! i) = take 2 l"
    using startswith_take [OF assms(2) len] by simp
  also have "\<dots> = take 2 ''Memo''"
    using startswith_take [OF m, of 2] by simp
  finally have "take 2 (hdrnames ! i) = ''Me''" by simp
  moreover have "i \<noteq> 16" using assms(1) by simp
  ultimately show False
    using \<open>i < 17\<close> by (auto dest!: lt17_cases simp: hdrnames_def)
qed

lemma memo_label: "startswith l (hdrnames ! 16) \<Longrightarrow> startswith l ''Memo''"
proof -
  assume "startswith l (hdrnames ! 16)"
  then have "take (length ''Memo'') l = take (length ''Memo'') (hdrnames ! 16)"
    by (rule startswith_take) (simp add: hdrnames_def)
  then show ?thesis by (simp add: startswith_def hdrnames_def)
qed

lemma valid_header_read:
  assumes ok: "read_knet_hdr env conv hs = Inr h"
    and lines: "list_all is_line hs" and asc: "list_all ascii hs"
  shows "read_header env conv (concat hs @ body) [] = Inr (h, body)"
proof -
  have len: "length hs = 17" using ok by (rule read_knet_hdr_length)
  let ?pre = "take 16 hs" and ?l = "hs ! 16"
  have "take (Suc 16) hs = ?pre @ [?l]"
    using len by (intro take_Suc_conv_app_nth) simp
  then have hs: "hs = ?pre @ [?l]" using len by simp
  have pre: "list_all (\<lambda>l. is_line l \<and> ascii l \<and> \<not> startswith l ''Memo'') ?pre"
    unfolding list_all_length
  proof (intro allI impI)
    fix i assume "i < length ?pre"
    then have i: "i < 16" by simp
    then have "startswith (hs ! i) (hdrnames ! i)"
      using read_knet_hdr_labels [OF ok, of i] by simp
    then have "\<not> startswith (hs ! i) ''Memo''" using i by (intro label_not_memo)
    moreover have "is_line (hs ! i)" "ascii (hs ! i)"
      using lines asc i len by (simp_all add: list_all_length)
    ultimately show "is_line (?pre ! i) \<and> ascii (?pre ! i) \<and> \<not> startswith (?pre ! i) ''Memo''"
      using i by simp
  qed
  have l: "is_line ?l" "ascii ?l" using lines asc len by (simp_all add: list_all_length)
  have m: "startswith ?l ''Memo''"
    using read_knet_hdr_labels [OF ok, of 16] by (intro memo_label) simp
  have "read_header env conv (concat ?pre @ ?l @ body) [] =
      bind (read_knet_hdr env conv ([] @ ?pre @ [?l])) (\<lambda>h. Inr (h, body))"
    using pre l m by (rule read_header_lines)
  moreover have "concat hs = concat ?pre @ ?l"
    by (subst hs) simp
  ultimately show ?thesis using ok hs by simp
qed

subsection \<open>The sniffer\<close>

lemma sniff_value:
  "internal_is_knet_ascii preferred buf encoding =
     Inr (case (case encoding of None \<Rightarrow> preferred | Some e \<Rightarrow> e) buf of
            None \<Rightarrow> False | Some txt \<Rightarrow> take 11 txt = ''Origin Time'')"
  by (auto simp: internal_is_knet_ascii_def text_read_def Let_def split: option.splits)

text \<open>
  C3. The sniffer always returns a boolean (no exception escapes). It returns true
  if and only if the stream decodes under the encoding in use and the first 11
  decoded characters are "Origin Time"; it returns false when the bytes fail to
  decode, when fewer than 11 characters are available, and when the first 11
  characters differ from the label.
\<close>

theorem sniffer_true_iff_origin_time:
  fixes preferred :: encoding
  defines "enc encoding \<equiv> (case encoding of None \<Rightarrow> preferred | Some e \<Rightarrow> e)"
  shows "(\<exists>b. internal_is_knet_ascii preferred buf encoding = Inr b)
    \<and> (internal_is_knet_ascii preferred buf encoding = Inr True
         \<longleftrightarrow> (\<exists>txt. enc encoding buf = Some txt \<and> take 11 txt = ''Origin Time''))
    \<and> (enc encoding buf = None \<longrightarrow> internal_is_knet_ascii preferred buf encoding = Inr False)
    \<and> (\<forall>txt. enc encoding buf = Some txt \<and> length txt < 11
          \<longrightarrow> internal_is_knet_ascii preferred buf encoding = Inr False)
    \<and> (\<forall>txt. enc encoding buf = Some txt \<and> take 11 txt \<noteq> ''Origin Time''
          \<longrightarrow> internal_is_knet_ascii preferred buf encoding = Inr False)"
  unfolding enc_def by (auto simp: sniff_value split: option.splits)

theorem sniffer_witness:
  "internal_is_knet_ascii ascii_codec ''Origin Time 2011/03/11'' None = Inr True
   \<and> internal_is_knet_ascii ascii_codec ''Origin'' None = Inr False
   \<and> internal_is_knet_ascii ascii_codec ''Origin Date 2011/03/11'' None = Inr False
   \<and> internal_is_knet_ascii ascii_codec [CHR 0xFF, CHR 0xFE] (Some ascii_codec) = Inr False
   \<and> ascii_codec [CHR 0xFF, CHR 0xFE] = None"
  using sniffer_true_iff_origin_time [of ascii_codec "''Origin Time 2011/03/11''" None]
    sniffer_true_iff_origin_time [of ascii_codec "''Origin''" None]
    sniffer_true_iff_origin_time [of ascii_codec "''Origin Date 2011/03/11''" None]
    sniffer_true_iff_origin_time [of ascii_codec "[CHR 0xFF, CHR 0xFE]" "Some ascii_codec"]
  by (simp add: ascii_codec_def ascii_def)

subsection \<open>The header\<close>

lemma mismatch_reached:
  assumes "i < 17" and "i < length hdrlines"
    and "\<not> startswith (hdrlines ! i) (hdrnames ! i)"
  shows "(\<exists>e. read_knet_hdr env conv hdrlines = Inl e)
    \<and> (\<forall>d. hdr_upto env conv i hdrlines = Inr d \<longrightarrow>
          read_knet_hdr env conv hdrlines =
            Inl (KNETException (mismatch_msg (hdrnames ! i) (hdrlines ! i))))"
proof -
  have blk: "(hdr_blocks env conv ! i) hdrlines d =
      Inl (KNETException (mismatch_msg (hdrnames ! i) (hdrlines ! i)))" for d
    using assms by (rule block_mismatch)
  show ?thesis
    by (cases "hdr_upto env conv i hdrlines")
       (simp_all add: read_knet_hdr_at [OF assms(1)] blk)
qed

lemma hdr_upto_cong:
  assumes "\<And>j. j < i \<Longrightarrow> getitem hs' j = getitem hs j" and "i \<le> 17"
  shows "hdr_upto env conv i hs' = hdr_upto env conv i hs"
  unfolding hdr_upto_def
proof (rule run_blocks_cong)
  fix b d assume "b \<in> set (take i (hdr_blocks env conv))"
  then obtain j where j: "j < i" and b: "b = hdr_blocks env conv ! j"
    using assms(2) by (auto simp: in_set_conv_nth)
  have "j < 17" using j assms(2) by simp
  moreover have "hdr_flds j hs' = hdr_flds j hs"
    using assms(1) [OF j] by (rule hdr_flds_cong)
  ultimately show "b hs' d = b hs d"
    unfolding b by (auto dest!: lt17_cases simp: hdr_blocks_def block_defs)
qed

lemma swap_lat_long:
  assumes ok: "read_knet_hdr env conv hs = Inr h"
  shows "read_knet_hdr env conv (hs[1 := hs ! 2, 2 := hs ! 1]) =
           Inl (KNETException (mismatch_msg ''Lat.'' (hs ! 2)))"
proof -
  let ?hs = "hs[1 := hs ! 2, 2 := hs ! 1]"
  have len: "length hs = 17" using ok by (rule read_knet_hdr_length)
  have "startswith (hs ! 2) (hdrnames ! 2)"
    using ok by (rule read_knet_hdr_labels) simp
  then have "take 2 (hs ! 2) = take 2 (hdrnames ! 2)"
    by (rule startswith_take) (simp add: hdrnames_def)
  then have t: "take 2 (hs ! 2) = ''Lo''" by (simp add: hdrnames_def)
  have ns: "\<not> startswith (?hs ! 1) (hdrnames ! 1)"
  proof
    assume "startswith (?hs ! 1) (hdrnames ! 1)"
    then have "take 2 (?hs ! 1) = take 2 (hdrnames ! 1)"
      by (rule startswith_take) (simp add: hdrnames_def)
    with t len show False by (simp add: hdrnames_def)
  qed
  obtain d where "hdr_upto env conv 1 hs = Inr d"
    using read_knet_hdr_upto [OF _ ok, of 1] by auto
  moreover have "hdr_upto env conv 1 ?hs = hdr_upto env conv 1 hs"
    by (rule hdr_upto_cong) (simp_all add: getitem_def)
  ultimately have "hdr_upto env conv 1 ?hs = Inr d" by simp
  moreover have "1 < length ?hs" using len by simp
  ultimately have "read_knet_hdr env conv ?hs =
      Inl (KNETException (mismatch_msg (hdrnames ! 1) (?hs ! 1)))"
    using mismatch_reached [of 1 ?hs env conv] ns by simp
  then show ?thesis using len by (simp add: hdrnames_def)
qed

text \<open>
  C4. The header is processed in the fixed order of the 17 labels. If the line at a
  position does not start with the label of that position, parsing returns no
  header; when parsing reaches that position (the blocks of the positions before
  have raised nothing), the exception is the KNETException whose message names the
  expected label and the line. Swapping the "Lat." and "Long." lines of a header
  that parses raises it for the label "Lat." and the "Long." line.
\<close>

theorem header_mismatch_at_position:
  "(i < 17 \<and> i < length hdrlines \<and> \<not> startswith (hdrlines ! i) (hdrnames ! i) \<longrightarrow>
      (\<exists>e. read_knet_hdr env conv hdrlines = Inl e)
      \<and> (\<forall>d. hdr_upto env conv i hdrlines = Inr d \<longrightarrow>
            read_knet_hdr env conv hdrlines =
              Inl (KNETException (''Expected line to start with '' @ hdrnames ! i
                                    @ '' but got '' @ hdrlines ! i @ '' ''))))
   \<and> (read_knet_hdr env conv hdrlines = Inr h \<longrightarrow>
        read_knet_hdr env conv (hdrlines[1 := hdrlines ! 2, 2 := hdrlines ! 1]) =
          Inl (KNETException (''Expected line to start with Lat. but got ''
                                @ hdrlines ! 2 @ '' '')))"
  using mismatch_reached [of i hdrlines env conv] swap_lat_long [of env conv hdrlines h]
  by (simp add: mismatch_msg_def)

theorem header_mismatch_witness:
  "read_knet_hdr ref_env False (ex_hdr[1 := ex_hdr ! 2, 2 := ex_hdr ! 1]) =
     Inl (KNETException ''Expected line to start with Lat. but got Long. 142.860\<newline> '')
   \<and> hdr_upto ref_env False 1 (ex_hdr[1 := ex_hdr ! 2, 2 := ex_hdr ! 1]) =
       Inr [(''knet'', VDict [(''evot'', VTime 1299822360)])]
   \<and> \<not> startswith ((ex_hdr[1 := ex_hdr ! 2, 2 := ex_hdr ! 1]) ! 1) (hdrnames ! 1)"
proof -
  let ?hs = "ex_hdr[1 := ex_hdr ! 2, 2 := ex_hdr ! 1]"
  have up: "hdr_upto ref_env False 1 ?hs = Inr [(''knet'', VDict [(''evot'', VTime 1299822360)])]"
    by (simp add: hdr_upto_def hdr_blocks_def ev0 getitem_def setknet_def)
  have ns: "\<not> startswith (?hs ! 1) (hdrnames ! 1)"
    by (simp add: ex_hdr_def startswith_def hdrnames_def)
  have "1 < length ?hs" by simp
  with up ns show ?thesis
    using header_mismatch_at_position [of 1 ?hs ref_env False "ex_dict ''AKT012'' ''''"]
    by (simp add: ex_hdr_def hdrnames_def)
qed

text \<open>
  C5. A list of header lines whose length is not 17 never yields a
  header. The count is checked after the 17 positions: a list of more than 17 lines
  whose first 17 lines are a header that parses raises the KNETException "Expected 17
  header lines but got n", with n the number of lines.
\<close>

theorem header_line_count:
  "(length hdrlines \<noteq> 17 \<longrightarrow> (\<exists>e. read_knet_hdr env conv hdrlines = Inl e))
   \<and> (17 < length hdrlines \<and> read_knet_hdr env conv (take 17 hdrlines) = Inr h \<longrightarrow>
        read_knet_hdr env conv hdrlines =
          Inl (KNETException (''Expected 17 header lines but got '' @ str_nat (length hdrlines))))"
proof (intro conjI impI)
  assume len: "length hdrlines \<noteq> 17"
  show "\<exists>e. read_knet_hdr env conv hdrlines = Inl e"
  proof (cases "read_knet_hdr env conv hdrlines")
    case (Inl e)
    then show ?thesis by simp
  next
    case (Inr d)
    then have "\<exists>d'. hdr_count hdrlines d' = Inr d"
      by (auto simp: read_knet_hdr_blocks bind_eq_Inr)
    with len show ?thesis by (simp add: hdr_count_def)
  qed
next
  assume a: "17 < length hdrlines \<and> read_knet_hdr env conv (take 17 hdrlines) = Inr h"
  then have "run_blocks (hdr_blocks env conv) (take 17 hdrlines) [(''knet'', VDict [])] = Inr h"
    by (auto simp: read_knet_hdr_blocks bind_eq_Inr hdr_count_def split: if_splits)
  then have "run_blocks (hdr_blocks env conv) hdrlines [(''knet'', VDict [])] = Inr h"
    by (simp only: run_blocks_take17)
  with a show "read_knet_hdr env conv hdrlines =
      Inl (KNETException (''Expected 17 header lines but got '' @ str_nat (length hdrlines)))"
    by (simp add: read_knet_hdr_blocks hdr_count_def count_msg_def str_nat_17)
qed

lemma str_nat_18: "str_nat 18 = ''18''"
  by (simp add: str_nat.simps)

theorem header_line_count_witness:
  "read_knet_hdr ref_env False (ex_hdr @ [''extra\<newline>'']) =
     Inl (KNETException ''Expected 17 header lines but got 18'')
   \<and> read_knet_hdr ref_env False (take 17 (ex_hdr @ [''extra\<newline>''])) =
       Inr (ex_dict ''AKT012'' '''')"
  using header_line_count [of "ex_hdr @ [''extra\<newline>'']" ref_env False "ex_dict ''AKT012'' ''''"]
  by (simp add: ex_hdr_result str_nat_18)

theorem header_shortfall_counterexample:
  "length (take 16 ex_hdr) = 16
   \<and> read_knet_hdr ref_env False (take 16 ex_hdr) = Inl IndexError
   \<and> read_knet_hdr ref_env False [] = Inl IndexError"
proof -
  obtain d where "hdr_upto ref_env False 16 ex_hdr = Inr d"
    using read_knet_hdr_upto [OF _ ex_hdr_result, of 16 False] by auto
  moreover have "hdr_upto ref_env False 16 (take 16 ex_hdr) = hdr_upto ref_env False 16 ex_hdr"
    by (rule hdr_upto_cong) (simp_all add: getitem_def)
  ultimately have up: "hdr_upto ref_env False 16 (take 16 ex_hdr) = Inr d" by simp
  have "hdr_flds 16 (take 16 ex_hdr) = Inl IndexError"
    by (rule hdr_flds_short) simp
  then have "(hdr_blocks ref_env False ! 16) (take 16 ex_hdr) d = Inl IndexError"
    by (intro block_flds_Inl) simp
  with up have 1: "read_knet_hdr ref_env False (take 16 ex_hdr) = Inl IndexError"
    by (simp add: read_knet_hdr_at [of 16])
  have 2: "read_knet_hdr ref_env False [] = Inl IndexError"
    by (simp add: read_knet_hdr_def hdr_evot_def hdr_flds_def getitem_def)
  show ?thesis using 1 2 by simp
qed

subsection \<open>The reader\<close>

text \<open>
  C1. If no line of the stream begins with "Memo", the header parser is
  never called and nothing is raised: for every ASCII stream whose lines are
  exhausted without such a line, the reader returns a trace with no samples whose
  header has only the sample count 0 and the network code.
\<close>

theorem no_memo_line_returns_empty_trace:
  assumes "ascii buf" and "list_all (\<lambda>l. \<not> startswith l ''Memo'') (readlines buf)"
  shows "internal_read_knet_ascii env conv buf =
           Inr ([(''npts'', VInt 0), (''network'', VStr ''BO'')], [])"
  using assms by (rule no_memo_result)

lemma ex_no_memo_lines:
  "readlines ex_no_memo = [''Origin Time 2011/03/11 14:46:00\<newline>'', ''Lat. 38.103\<newline>'']"
  by (simp add: ex_no_memo_def readlines.simps readline_def)

lemma ex_no_memo_ascii: "ascii ex_no_memo"
  by (simp add: ex_no_memo_def ascii_def)

theorem no_memo_line_witness:
  "ascii ex_no_memo
   \<and> list_all (\<lambda>l. \<not> startswith l ''Memo'') (readlines ex_no_memo)
   \<and> internal_read_knet_ascii ref_env False ex_no_memo =
       Inr ([(''npts'', VInt 0), (''network'', VStr ''BO'')], [])"
proof -
  have 1: "list_all (\<lambda>l. \<not> startswith l ''Memo'') (readlines ex_no_memo)"
    by (simp add: ex_no_memo_lines startswith_def)
  show ?thesis
    using no_memo_line_returns_empty_trace [OF ex_no_memo_ascii 1, of ref_env False]
      ex_no_memo_ascii 1 by simp
qed

theorem no_memo_line_counterexample:
  "readlines ex_no_memo = [''Origin Time 2011/03/11 14:46:00\<newline>'', ''Lat. 38.103\<newline>'']
   \<and> \<not> startswith ''Origin Time 2011/03/11 14:46:00\<newline>'' ''Memo''
   \<and> \<not> startswith ''Lat. 38.103\<newline>'' ''Memo''
   \<and> internal_read_knet_ascii ref_env False ex_no_memo =
       Inr ([(''npts'', VInt 0), (''network'', VStr ''BO'')], [])"
proof -
  have "list_all (\<lambda>l. \<not> startswith l ''Memo'') (readlines ex_no_memo)"
    by (simp add: ex_no_memo_lines startswith_def)
  then have "internal_read_knet_ascii ref_env False ex_no_memo =
       Inr ([(''npts'', VInt 0), (''network'', VStr ''BO'')], [])"
    using ex_no_memo_ascii by (intro no_memo_result)
  then show ?thesis by (simp add: ex_no_memo_lines startswith_def)
qed

text \<open>
  C2. For a stream made of 17 complete ASCII header lines that the header parser
  accepts, followed by a body all of whose whitespace-delimited tokens are floats, the
  reader returns the header with \<open>npts\<close> set to the number of tokens of the body, and
  the samples are the floats of exactly those tokens, in their order in the body.
\<close>

theorem samples_are_all_tokens:
  assumes "read_knet_hdr env conv hdrlines = Inr h"
    and "list_all is_line hdrlines" and "list_all ascii hdrlines"
    and "list_all (\<lambda>t. float_bytes env t \<noteq> None) (split_ws bytes_isspace body)"
  shows "length hdrlines = 17
    \<and> internal_read_knet_ascii env conv (concat hdrlines @ body) =
        Inr (setitem ''network'' (VStr ''BO'')
               (setitem ''npts'' (VInt (length (split_ws bytes_isspace body))) h),
             map (\<lambda>t. the (float_bytes env t)) (split_ws bytes_isspace body))
    \<and> map_of (setitem ''network'' (VStr ''BO'')
               (setitem ''npts'' (VInt (length (split_ws bytes_isspace body))) h)) ''npts''
        = Some (VInt (length (split_ws bytes_isspace body)))"
proof -
  have "read_header env conv (concat hdrlines @ body) [] = Inr (h, body)"
    using assms(1-3) by (rule valid_header_read)
  moreover have "read_data env body [] =
      Inr (map (\<lambda>t. the (float_bytes env t)) (split_ws bytes_isspace body))"
    by (simp add: read_data_tokens floats_all [OF assms(4)])
  ultimately show ?thesis
    using read_knet_hdr_length [OF assms(1)]
    by (simp add: internal_read_knet_ascii_def map_of_setitem)
qed

lemmas float_defs = ref_env_def dec_float_def dec_unsigned_def isdigit_def digits_val_def
  digit_val_def Let_def

lemma ex_body_tokens:
  "split_ws bytes_isspace ex_body = [''1'', ''2'', ''3'', ''4.5'', ''-6'', ''7'']"
  by (simp add: ex_body_def split_ws_def bytes_isspace_def)

theorem samples_witness:
  "internal_read_knet_ascii ref_env False (concat ex_hdr @ ex_body) =
     Inr (ex_dict ''AKT012'' '''' @ [(''npts'', VInt 6), (''network'', VStr ''BO'')],
          [1, 2, 3, 9 / 2, - 6, 7])
   \<and> split_ws bytes_isspace ex_body = [''1'', ''2'', ''3'', ''4.5'', ''-6'', ''7'']
   \<and> list_all is_line ex_hdr \<and> list_all ascii ex_hdr"
proof -
  have 1: "list_all is_line ex_hdr" by (simp add: ex_hdr_def is_line_def)
  have 2: "list_all ascii ex_hdr" by (simp add: ex_hdr_def ascii_def)
  have v: "map (float_bytes ref_env) [''1'', ''2'', ''3'', ''4.5'', ''-6'', ''7''] =
      [Some 1, Some 2, Some 3, Some (9 / 2), Some (- 6), Some 7]"
    by (simp add: float_defs)
  have 3: "list_all (\<lambda>t. float_bytes ref_env t \<noteq> None) (split_ws bytes_isspace ex_body)"
    using v by (simp add: ex_body_tokens del: not_None_eq)
  have 4: "read_knet_hdr ref_env False ex_hdr = Inr (ex_dict ''AKT012'' '''')"
    by (simp add: ex_hdr_result)
  show ?thesis
    using samples_are_all_tokens [OF 4 1 2 3] 1 2 v
    by (simp add: ex_body_tokens ex_dict_def)
qed

subsection \<open>The fields of the header\<close>

lemma evot_after:
  assumes "read_knet_hdr env conv hs = Inr h"
  shows "\<exists>t. strptime env (tok hs 0 2 @ '' '' @ tok hs 0 3) = Some t
    \<and> knet_of h ''evot'' = Some (VTime (t - 32400))"
proof -
  from read_knet_hdr_split [of 0, OF _ assms]
  obtain d1 d2 where b: "(hdr_blocks env conv ! 0) hs d1 = Inr d2"
    and r: "run_blocks (drop (Suc 0) (hdr_blocks env conv)) hs d2 = Inr h"
    by auto
  from b obtain t where 1: "strptime env (tok hs 0 2 @ '' '' @ tok hs 0 3) = Some t"
    and 2: "setknet ''evot'' (VTime (t - 32400)) d1 = Inr d2"
    by (auto simp: hdr_blocks_def hdr_evot_def bind_eq_Inr hdr_flds_Inr read_time_Inr tok_def)
  have "knet_of h ''evot'' = knet_of d2 ''evot''"
    using _ r by (rule run_blocks_frame) (auto simp: hdr_blocks_def elim: knet_frames)
  with 1 2 show ?thesis by (auto simp: setknet_knet_of)
qed

lemma starttime_after:
  assumes "read_knet_hdr env conv hs = Inr h"
  shows "\<exists>t. strptime env (tok hs 9 2 @ '' '' @ tok hs 9 3) = Some t
    \<and> map_of h ''starttime'' = Some (VTime (t - 15 - 32400))"
proof -
  from read_knet_hdr_split [of 9, OF _ assms]
  obtain d1 d2 where b: "(hdr_blocks env conv ! 9) hs d1 = Inr d2"
    and r: "run_blocks (drop (Suc 9) (hdr_blocks env conv)) hs d2 = Inr h"
    by auto
  from b obtain t where 1: "strptime env (tok hs 9 2 @ '' '' @ tok hs 9 3) = Some t"
    and 2: "d2 = setitem ''starttime'' (VTime (t - 15 - 32400)) d1"
    by (auto simp: hdr_blocks_def hdr_starttime_def bind_eq_Inr hdr_flds_Inr read_time_Inr tok_def)
  have "map_of h ''starttime'' = map_of d2 ''starttime''"
    using _ r by (rule run_blocks_frame) (auto simp: hdr_blocks_def elim: top_frames)
  with 1 2 show ?thesis by (auto simp: map_of_setitem)
qed

lemma last_correction_after:
  assumes "read_knet_hdr env conv hs = Inr h"
  shows "\<exists>t. strptime env (tok hs 15 2 @ '' '' @ tok hs 15 3) = Some t
    \<and> knet_of h ''last correction'' = Some (VTime (t - 32400))"
proof -
  from read_knet_hdr_split [of 15, OF _ assms]
  obtain d1 d2 where b: "(hdr_blocks env conv ! 15) hs d1 = Inr d2"
    and r: "run_blocks (drop (Suc 15) (hdr_blocks env conv)) hs d2 = Inr h"
    by auto
  from b obtain t where 1: "strptime env (tok hs 15 2 @ '' '' @ tok hs 15 3) = Some t"
    and 2: "setknet ''last correction'' (VTime (t - 32400)) d1 = Inr d2"
    by (auto simp: hdr_blocks_def hdr_last_correction_def bind_eq_Inr hdr_flds_Inr
        read_time_Inr tok_def)
  have "knet_of h ''last correction'' = knet_of d2 ''last correction''"
    using _ r by (rule run_blocks_frame) (auto simp: hdr_blocks_def elim: knet_frames)
  with 1 2 show ?thesis by (auto simp: setknet_knet_of)
qed

lemma strptime_example:
  "strptime_YmdHMS ''2011/03/11 14:46:45'' = Some 1299854805
   \<and> strptime_YmdHMS ''2011/03/11 05:46:30'' = Some (1299854805 - 15 - 32400)"
  by (simp add: eval_defs)

text \<open>
  C6. In a header that parses, each of the three times is the time parsed from the
  date and time tokens (tokens 2 and 3 of the line) joined by one space, minus 32400
  seconds; the record time, which is the start time of the trace, has a further 15
  seconds subtracted. In the calendar, "2011/03/11 14:46:45" minus 15 s and 9 h is
  "2011/03/11 05:46:30".
\<close>

theorem times_are_utc:
  assumes "read_knet_hdr env conv hdrlines = Inr h"
  shows "(\<exists>t. strptime env (tok hdrlines 0 2 @ '' '' @ tok hdrlines 0 3) = Some t
            \<and> knet_of h ''evot'' = Some (VTime (t - 32400)))
    \<and> (\<exists>t. strptime env (tok hdrlines 9 2 @ '' '' @ tok hdrlines 9 3) = Some t
            \<and> map_of h ''starttime'' = Some (VTime (t - 15 - 32400)))
    \<and> (\<exists>t. strptime env (tok hdrlines 15 2 @ '' '' @ tok hdrlines 15 3) = Some t
            \<and> knet_of h ''last correction'' = Some (VTime (t - 32400)))
    \<and> strptime_YmdHMS ''2011/03/11 14:46:45'' = Some 1299854805
    \<and> strptime_YmdHMS ''2011/03/11 05:46:30'' = Some (1299854805 - 15 - 32400)"
  using evot_after [OF assms] starttime_after [OF assms] last_correction_after [OF assms]
    strptime_example by simp

lemma ex_hdr_times:
  "tok ex_hdr 9 2 @ '' '' @ tok ex_hdr 9 3 = ''2011/03/11 14:46:45''
   \<and> tok ex_hdr 0 2 @ '' '' @ tok ex_hdr 0 3 = ''2011/03/11 14:46:00''
   \<and> tok ex_hdr 15 2 @ '' '' @ tok ex_hdr 15 3 = ''2011/03/11 14:46:30''"
  by (simp add: tok_def ex_hdr_def split_ws_def str_isspace_def)

theorem times_witness:
  "read_knet_hdr ref_env False ex_hdr = Inr (ex_dict ''AKT012'' '''')
   \<and> tok ex_hdr 9 2 @ '' '' @ tok ex_hdr 9 3 = ''2011/03/11 14:46:45''
   \<and> map_of (ex_dict ''AKT012'' '''') ''starttime'' = Some (VTime 1299822390)
   \<and> strptime ref_env ''2011/03/11 05:46:30'' = Some 1299822390
   \<and> knet_of (ex_dict ''AKT012'' '''') ''evot'' = Some (VTime (1299822390 - 30))
   \<and> knet_of (ex_dict ''AKT012'' '''') ''last correction'' = Some (VTime 1299822390)"
proof -
  have 1: "read_knet_hdr ref_env False ex_hdr = Inr (ex_dict ''AKT012'' '''')"
    by (simp add: ex_hdr_result)
  have 2: "strptime ref_env = strptime_YmdHMS" by (simp add: ref_env_def)
  show ?thesis
    using times_are_utc [OF 1] 1 ex_hdr_times strptime_example
    by (simp add: 2 knet_of_def ex_dict_def)
qed

lemma split_run_no_space:
  "t \<in> set (split_run sp cur s) \<Longrightarrow> \<forall>c\<in>set cur. \<not> sp c \<Longrightarrow> \<forall>c\<in>set t. \<not> sp c"
proof (induction s arbitrary: cur)
  case Nil
  then show ?case by (simp split: if_splits)
next
  case (Cons a s)
  show ?case
  proof (cases "sp a")
    case True
    with Cons.prems have "t = cur \<or> t \<in> set (split_run sp [] s)"
      by (simp split: if_splits)
    then show ?thesis
    proof
      assume "t = cur"
      with Cons.prems(2) show ?thesis by simp
    next
      assume "t \<in> set (split_run sp [] s)"
      then show ?thesis by (rule Cons.IH) simp
    qed
  next
    case False
    with Cons.prems have "t \<in> set (split_run sp (cur @ [a]) s)" by simp
    then show ?thesis by (rule Cons.IH) (use False Cons.prems(2) in auto)
  qed
qed

lemma tok_no_space:
  assumes "j < length (split_ws str_isspace (hs ! i))"
  shows "\<forall>c\<in>set (tok hs i j). \<not> str_isspace c"
proof -
  have "tok hs i j \<in> set (split_run str_isspace [] (hs ! i))"
    using assms by (simp add: tok_def split_ws_def)
  then show ?thesis by (rule split_run_no_space) simp
qed

lemma strip_no_space: "\<forall>c\<in>set s. \<not> sp c \<Longrightarrow> strip sp s = s"
proof -
  assume a: "\<forall>c\<in>set s. \<not> sp c"
  then have 1: "dropWhile sp s = s" by (cases s) simp_all
  from a have "\<forall>c\<in>set (rev s). \<not> sp c" by simp
  then have "dropWhile sp (rev s) = rev s" by (cases "rev s") simp_all
  with 1 show ?thesis by (simp add: strip_def)
qed

lemma channel_of_token:
  assumes "\<forall>c\<in>set t. \<not> str_isspace c"
  shows "channel_of t =
     (let c = filter (\<lambda>x. x \<noteq> CHR ''-'') t in
      if c = ''1'' then ''NS1'' else if c = ''2'' then ''EW1'' else if c = ''3'' then ''UD1''
      else if c = ''4'' then ''NS2'' else if c = ''5'' then ''EW2'' else if c = ''6'' then ''UD2''
      else c)"
proof -
  define c where "c = filter (\<lambda>x. x \<noteq> CHR ''-'') t"
  have "\<forall>x\<in>set c. \<not> str_isspace x"
    using assms by (simp add: c_def)
  then have s: "strip str_isspace c = c"
    by (rule strip_no_space)
  have "map_of kiknetcomps c =
      (if c = ''1'' then Some ''NS1'' else if c = ''2'' then Some ''EW1''
       else if c = ''3'' then Some ''UD1'' else if c = ''4'' then Some ''NS2''
       else if c = ''5'' then Some ''EW2'' else if c = ''6'' then Some ''UD2'' else None)"
    unfolding kiknetcomps_def by (simp only: map_of.simps fun_upd_apply fst_conv snd_conv)
  then show ?thesis
    unfolding channel_of_def Let_def c_def [symmetric] s by (simp only:) simp
qed

lemma channel_examples:
  "channel_of ''3'' = ''UD1''" "channel_of ''-3-'' = ''UD1''"
  "channel_of ''N-S'' = ''NS''" "channel_of ''0'' = ''0''"
  by (simp_all add: channel_of_def kiknetcomps_def strip_def str_isspace_def Let_def)

text \<open>
  C8. In a header that parses, the channel is the direction token (token 1 of the
  "Dir." line) with every hyphen removed, replaced by NS1, EW1, UD1, NS2, EW2 or UD2
  when what is left is "1", "2", "3", "4", "5" or "6", and kept as it is otherwise:
  "3" gives "UD1" and "N-S" gives "NS".
\<close>

theorem channel_code:
  assumes "read_knet_hdr env conv hdrlines = Inr h"
  shows "map_of h ''channel'' =
      Some (VStr (let c = filter (\<lambda>x. x \<noteq> CHR ''-'') (tok hdrlines 12 1) in
        if c = ''1'' then ''NS1'' else if c = ''2'' then ''EW1'' else if c = ''3'' then ''UD1''
        else if c = ''4'' then ''NS2'' else if c = ''5'' then ''EW2'' else if c = ''6'' then ''UD2''
        else c))
    \<and> channel_of ''3'' = ''UD1'' \<and> channel_of ''-3-'' = ''UD1'' \<and> channel_of ''N-S'' = ''NS''
    \<and> channel_of ''0'' = ''0''"
proof -
  have 1: "1 < length (split_ws str_isspace (hdrlines ! 12))"
    and 2: "map_of h ''channel'' = Some (VStr (channel_of (tok hdrlines 12 1)))"
    using channel_after [OF assms] by simp_all
  have "\<forall>c\<in>set (tok hdrlines 12 1). \<not> str_isspace c"
    using 1 by (rule tok_no_space)
  then have "channel_of (tok hdrlines 12 1) =
     (let c = filter (\<lambda>x. x \<noteq> CHR ''-'') (tok hdrlines 12 1) in
      if c = ''1'' then ''NS1'' else if c = ''2'' then ''EW1'' else if c = ''3'' then ''UD1''
      else if c = ''4'' then ''NS2'' else if c = ''5'' then ''EW2'' else if c = ''6'' then ''UD2''
      else c)"
    by (rule channel_of_token)
  with 2 show ?thesis
    by (simp only: channel_examples simp_thms)
qed

theorem channel_witness:
  "read_knet_hdr ref_env False ex_hdr = Inr (ex_dict ''AKT012'' '''')
   \<and> tok ex_hdr 12 1 = ''N-S''
   \<and> map_of (ex_dict ''AKT012'' '''') ''channel'' = Some (VStr ''NS'')"
proof -
  have 1: "read_knet_hdr ref_env False ex_hdr = Inr (ex_dict ''AKT012'' '''')"
    by (simp add: ex_hdr_result)
  have 2: "tok ex_hdr 12 1 = ''N-S''"
    by (simp add: tok_def ex_hdr_def split_ws_def str_isspace_def)
  have 3: "map_of (ex_dict ''AKT012'' '''') ''channel'' = Some (VStr ''NS'')"
    by (simp add: ex_dict_def)
  show ?thesis
    using channel_code [OF 1] 1 2 3 by (simp only: simp_thms)
qed

lemma leading_digits_Nil:
  "leading_digits t = [] \<longleftrightarrow> t = [] \<or> \<not> isdigit (hd t)"
  by (cases t) (simp_all add: leading_digits_def)

lemma hdr_sampling_rate_Inr:
  "hdr_sampling_rate hs d = Inr d' \<longleftrightarrow>
     10 < length hs \<and> startswith (hs ! 10) (hdrnames ! 10)
     \<and> 2 < length (split_ws str_isspace (hs ! 10))
     \<and> leading_digits (tok hs 10 2) \<noteq> []
     \<and> d' = setitem ''sampling_rate'' (VInt (digits_val (leading_digits (tok hs 10 2)))) d"
  by (auto simp: hdr_sampling_rate_def bind_eq_Inr hdr_flds_Inr getitem_def int_of_digits_def
      tok_def split: if_splits)

lemma sampling_rate_after:
  assumes "read_knet_hdr env conv hs = Inr h"
  shows "2 < length (split_ws str_isspace (hs ! 10))
    \<and> leading_digits (tok hs 10 2) \<noteq> []
    \<and> map_of h ''sampling_rate'' = Some (VInt (digits_val (leading_digits (tok hs 10 2))))"
proof -
  from read_knet_hdr_split [of 10, OF _ assms]
  obtain d1 d2 where b: "(hdr_blocks env conv ! 10) hs d1 = Inr d2"
    and r: "run_blocks (drop (Suc 10) (hdr_blocks env conv)) hs d2 = Inr h"
    by auto
  from b have b': "hdr_sampling_rate hs d1 = Inr d2" by (simp add: hdr_blocks_def)
  have "map_of h ''sampling_rate'' = map_of d2 ''sampling_rate''"
    using _ r by (rule run_blocks_frame) (auto simp: hdr_blocks_def elim: top_frames)
  with b' show ?thesis by (simp add: hdr_sampling_rate_Inr map_of_setitem)
qed

lemma sampling_rate_no_digit:
  assumes "\<not> isdigit (hd (tok hs 10 2))"
  shows "(\<exists>e. read_knet_hdr env conv hs = Inl e)
    \<and> (\<forall>d. hdr_upto env conv 10 hs = Inr d \<and> 10 < length hs
            \<and> startswith (hs ! 10) (hdrnames ! 10)
            \<and> 2 < length (split_ws str_isspace (hs ! 10))
          \<longrightarrow> read_knet_hdr env conv hs = Inl ValueError)"
proof (intro conjI allI impI)
  show "\<exists>e. read_knet_hdr env conv hs = Inl e"
  proof (cases "read_knet_hdr env conv hs")
    case (Inl e)
    then show ?thesis by simp
  next
    case (Inr h)
    then have "leading_digits (tok hs 10 2) \<noteq> []"
      using sampling_rate_after by blast
    with assms show ?thesis by (simp add: leading_digits_Nil)
  qed
next
  fix d
  assume a: "hdr_upto env conv 10 hs = Inr d \<and> 10 < length hs
      \<and> startswith (hs ! 10) (hdrnames ! 10) \<and> 2 < length (split_ws str_isspace (hs ! 10))"
  have "leading_digits (tok hs 10 2) = []"
    using assms by (simp add: leading_digits_Nil)
  with a have "hdr_sampling_rate hs d = Inl ValueError"
    by (simp add: hdr_sampling_rate_def hdr_flds_def getitem_def prep_hdr_line_def
        int_of_digits_def tok_def)
  with a show "read_knet_hdr env conv hs = Inl ValueError"
    by (simp add: read_knet_hdr_at [of 10] hdr_blocks_def)
qed

text \<open>
  C10. In a header that parses, the sampling-frequency token (token 2 of the
  "Sampling Freq(Hz)" line) begins with a digit, and the sampling rate is the integer
  its leading run of digits denotes, whatever follows the digits. If the token does
  not begin with a digit, parsing returns no header (so never a sampling rate of 0):
  the run of digits is empty and, when parsing reaches the line, the conversion of
  the empty string raises ValueError.
\<close>

theorem sampling_rate_leading_digits:
  "(read_knet_hdr env conv hdrlines = Inr h \<longrightarrow>
      isdigit (hd (tok hdrlines 10 2))
      \<and> map_of h ''sampling_rate'' =
          Some (VInt (digits_val (takeWhile isdigit (tok hdrlines 10 2)))))
   \<and> (\<not> isdigit (hd (tok hdrlines 10 2)) \<longrightarrow>
        takeWhile isdigit (tok hdrlines 10 2) = []
        \<and> int_of_digits [] = Inl ValueError
        \<and> (\<exists>e. read_knet_hdr env conv hdrlines = Inl e)
        \<and> (\<forall>d. hdr_upto env conv 10 hdrlines = Inr d \<and> 10 < length hdrlines
                \<and> startswith (hdrlines ! 10) (hdrnames ! 10)
                \<and> 2 < length (split_ws str_isspace (hdrlines ! 10))
              \<longrightarrow> read_knet_hdr env conv hdrlines = Inl ValueError))
   \<and> digits_val ''100'' = 100 \<and> takeWhile isdigit ''100Hz'' = ''100''"
proof (intro conjI impI)
  assume ok: "read_knet_hdr env conv hdrlines = Inr h"
  from sampling_rate_after [OF ok]
  show "isdigit (hd (tok hdrlines 10 2))"
    by (simp add: leading_digits_Nil)
  from sampling_rate_after [OF ok]
  show "map_of h ''sampling_rate'' =
      Some (VInt (digits_val (takeWhile isdigit (tok hdrlines 10 2))))"
    by (simp add: leading_digits_def)
next
  assume nd: "\<not> isdigit (hd (tok hdrlines 10 2))"
  then show "takeWhile isdigit (tok hdrlines 10 2) = []"
    by (cases "tok hdrlines 10 2") simp_all
  show "int_of_digits [] = Inl ValueError" by (simp add: int_of_digits_def)
  from sampling_rate_no_digit [OF nd]
  show "\<exists>e. read_knet_hdr env conv hdrlines = Inl e" by blast
  from sampling_rate_no_digit [OF nd]
  show "\<forall>d. hdr_upto env conv 10 hdrlines = Inr d \<and> 10 < length hdrlines
                \<and> startswith (hdrlines ! 10) (hdrnames ! 10)
                \<and> 2 < length (split_ws str_isspace (hdrlines ! 10))
              \<longrightarrow> read_knet_hdr env conv hdrlines = Inl ValueError" by blast
next
  show "digits_val ''100'' = 100" by (simp add: digits_val_def digit_val_def)
  show "takeWhile isdigit ''100Hz'' = ''100''" by (simp add: isdigit_def)
qed

lemma ex_upto_variant:
  assumes "i < 17" and "\<And>j. j < i \<Longrightarrow> getitem hs j = getitem ex_hdr j"
  shows "\<exists>d. hdr_upto ref_env conv i hs = Inr d"
proof -
  have "hdr_upto ref_env conv i hs = hdr_upto ref_env conv i ex_hdr"
    using assms by (intro hdr_upto_cong) simp_all
  then show ?thesis
    using read_knet_hdr_upto [OF assms(1) ex_hdr_result, of conv] by simp
qed

theorem sampling_rate_witness:
  "read_knet_hdr ref_env False ex_hdr = Inr (ex_dict ''AKT012'' '''')
   \<and> tok ex_hdr 10 2 = ''100Hz''
   \<and> map_of (ex_dict ''AKT012'' '''') ''sampling_rate'' = Some (VInt 100)
   \<and> tok ex_no_rate 10 2 = ''Hz''
   \<and> read_knet_hdr ref_env False ex_no_rate = Inl ValueError"
proof -
  have 1: "read_knet_hdr ref_env False ex_hdr = Inr (ex_dict ''AKT012'' '''')"
    by (simp add: ex_hdr_result)
  have 2: "tok ex_hdr 10 2 = ''100Hz''"
    by (simp add: tok_def ex_hdr_def split_ws_def str_isspace_def)
  have 3: "map_of (ex_dict ''AKT012'' '''') ''sampling_rate'' = Some (VInt 100)"
    by (simp add: ex_dict_def)
  have l: "ex_no_rate ! 10 = ''Sampling Freq(Hz) Hz\<newline>''" "length ex_no_rate = 17"
    by (simp_all add: ex_no_rate_def)
  have 4: "tok ex_no_rate 10 2 = ''Hz''"
    by (simp add: tok_def l split_ws_def str_isspace_def)
  have 5: "\<not> isdigit (hd (tok ex_no_rate 10 2))"
    by (simp add: 4 isdigit_def)
  obtain d where 6: "hdr_upto ref_env False 10 ex_no_rate = Inr d"
    using ex_upto_variant [of 10 ex_no_rate False]
    by (auto simp: ex_no_rate_def getitem_def)
  have 7: "startswith (ex_no_rate ! 10) (hdrnames ! 10)"
    "2 < length (split_ws str_isspace (ex_no_rate ! 10))"
    by (simp_all add: l startswith_def hdrnames_def split_ws_def str_isspace_def)
  have "read_knet_hdr ref_env False ex_no_rate = Inl ValueError"
    using sampling_rate_leading_digits [of ref_env False ex_no_rate "[]"] 5 6 7 l(2)
    by simp
  with 1 2 3 4 show ?thesis by (simp only: simp_thms)
qed

lemma station_after:
  assumes "read_knet_hdr env conv hs = Inr h"
  shows "2 < length (split_ws str_isspace (hs ! 5))
    \<and> length (fst (split_stnm conv (tok hs 5 2))) \<le> 7
    \<and> map_of h ''station'' = Some (VStr (fst (split_stnm conv (tok hs 5 2))))
    \<and> map_of h ''location'' = Some (VStr (snd (split_stnm conv (tok hs 5 2))))"
proof -
  from read_knet_hdr_split [of 5, OF _ assms]
  obtain d1 d2 where b: "(hdr_blocks env conv ! 5) hs d1 = Inr d2"
    and r: "run_blocks (drop (Suc 5) (hdr_blocks env conv)) hs d2 = Inr h"
    by auto
  from b have b': "hdr_station conv hs d1 = Inr d2" by (simp add: hdr_blocks_def)
  then have 1: "2 < length (split_ws str_isspace (hs ! 5))"
    and 2: "length (fst (split_stnm conv (tok hs 5 2))) \<le> 7"
    and 3: "d2 = setitem ''location'' (VStr (snd (split_stnm conv (tok hs 5 2))))
                  (setitem ''station'' (VStr (fst (split_stnm conv (tok hs 5 2)))) d1)"
    by (auto simp: hdr_station_def bind_eq_Inr hdr_flds_Inr getitem_def tok_def split_beta
        split: if_splits)
  have "map_of h ''station'' = map_of d2 ''station''"
    using _ r by (rule run_blocks_frame) (auto simp: hdr_blocks_def elim: top_frames)
  moreover have "map_of h ''location'' = map_of d2 ''location''"
    using _ r by (rule run_blocks_frame) (auto simp: hdr_blocks_def elim: top_frames)
  ultimately show ?thesis using 1 2 3 by (simp add: map_of_setitem)
qed

text \<open>No block but the one of the station code, nor the count check, raises the
  KNETException of a station name that is too long.\<close>

lemma mismatch_not_too_long: "mismatch_msg name line \<noteq> too_long_msg"
  by (simp add: mismatch_msg_def too_long_msg_def)

lemma count_not_too_long: "count_msg a b \<noteq> too_long_msg"
  by (simp add: count_msg_def too_long_msg_def)

lemma hdr_flds_Inl:
  "hdr_flds i hs = Inl e \<Longrightarrow>
     e = IndexError \<or> e = KNETException (mismatch_msg (hdrnames ! i) (hs ! i))"
  by (auto simp: hdr_flds_def getitem_def prep_hdr_line_def split: if_splits)

lemma hdr_flds_not_too_long: "hdr_flds i hs \<noteq> Inl (KNETException too_long_msg)"
proof
  assume "hdr_flds i hs = Inl (KNETException too_long_msg)"
  then have "too_long_msg = mismatch_msg (hdrnames ! i) (hs ! i)"
    by (auto dest: hdr_flds_Inl)
  then show False using mismatch_not_too_long [of "hdrnames ! i" "hs ! i"] by simp
qed

lemma setknet_Inl: "setknet key v d = Inl e \<Longrightarrow> e = KeyError"
  by (auto simp: setknet_def split: option.splits val.splits)

lemma read_time_Inl: "read_time env flds = Inl e \<Longrightarrow> e = IndexError \<or> e = ValueError"
  by (auto simp: read_time_def bind_eq_Inl getitem_def py_strptime_def
      split: if_splits option.splits)

lemma py_float_Inl: "py_float env s = Inl e \<Longrightarrow> e = ValueError"
  by (auto simp: py_float_def split: option.splits)

lemma getitem_Inl: "getitem xs i = Inl e \<Longrightarrow> e = IndexError"
  by (auto simp: getitem_def split: if_splits)

lemma calib_of_Inl: "calib_of env eqn = Inl e \<Longrightarrow> e = ValueError \<or> e = ZeroDivisionError"
  by (auto simp: calib_of_def bind_eq_Inl py_div_def dest!: py_float_Inl
      split: list.splits option.splits)

lemma int_of_digits_Inl: "int_of_digits s = Inl e \<Longrightarrow> e = ValueError"
  by (auto simp: int_of_digits_def split: if_splits)

lemma hdr_float_not_too_long:
  "hdr_float env i j key hs d \<noteq> Inl (KNETException too_long_msg)"
  by (auto simp: hdr_float_def bind_eq_Inl hdr_flds_not_too_long
      dest!: getitem_Inl py_float_Inl setknet_Inl)

lemma hdr_starttime_not_too_long:
  "hdr_starttime env hs d \<noteq> Inl (KNETException too_long_msg)"
  by (auto simp: hdr_starttime_def bind_eq_Inl hdr_flds_not_too_long dest!: read_time_Inl)

lemma hdr_sampling_rate_not_too_long:
  "hdr_sampling_rate hs d \<noteq> Inl (KNETException too_long_msg)"
  by (auto simp: hdr_sampling_rate_def bind_eq_Inl hdr_flds_not_too_long
      dest!: getitem_Inl int_of_digits_Inl)

lemma hdr_channel_not_too_long:
  "hdr_channel hs d \<noteq> Inl (KNETException too_long_msg)"
  by (auto simp: hdr_channel_def bind_eq_Inl hdr_flds_not_too_long dest!: getitem_Inl)

lemma hdr_calib_not_too_long:
  "hdr_calib env hs d \<noteq> Inl (KNETException too_long_msg)"
  by (auto simp: hdr_calib_def bind_eq_Inl hdr_flds_not_too_long
      dest!: getitem_Inl calib_of_Inl)

lemma hdr_last_correction_not_too_long:
  "hdr_last_correction env hs d \<noteq> Inl (KNETException too_long_msg)"
  by (auto simp: hdr_last_correction_def bind_eq_Inl hdr_flds_not_too_long
      dest!: read_time_Inl setknet_Inl)

lemma hdr_comment_not_too_long:
  "hdr_comment hs d \<noteq> Inl (KNETException too_long_msg)"
  by (auto simp: hdr_comment_def bind_eq_Inl hdr_flds_not_too_long
      dest!: setknet_Inl split: if_splits)

lemmas not_too_long = hdr_float_not_too_long hdr_starttime_not_too_long
  hdr_sampling_rate_not_too_long hdr_channel_not_too_long hdr_calib_not_too_long
  hdr_last_correction_not_too_long hdr_comment_not_too_long

lemma run_blocks_never:
  assumes "\<And>b d. b \<in> set bs \<Longrightarrow> b hs d \<noteq> Inl e"
  shows "run_blocks bs hs d \<noteq> Inl e"
  using assms
proof (induction bs arbitrary: d)
  case Nil
  then show ?case by simp
next
  case (Cons b bs)
  have "b hs d \<noteq> Inl e" by (rule Cons.prems) simp
  moreover have "run_blocks bs hs d' \<noteq> Inl e" for d'
    by (rule Cons.IH, rule Cons.prems) simp
  ultimately show ?case by (auto simp: bind_eq_Inl)
qed

lemma after_station_not_too_long:
  "bind (run_blocks (drop (Suc 5) (hdr_blocks env conv)) hs d) (hdr_count hs)
     \<noteq> Inl (KNETException too_long_msg)"
proof -
  have "run_blocks (drop (Suc 5) (hdr_blocks env conv)) hs d \<noteq> Inl (KNETException too_long_msg)"
    by (rule run_blocks_never) (auto simp: hdr_blocks_def not_too_long)
  moreover have "hdr_count hs d' \<noteq> Inl (KNETException too_long_msg)" for d' :: "'a dict"
    by (simp add: hdr_count_def count_not_too_long)
  ultimately show ?thesis by (auto simp: bind_eq_Inl)
qed

lemma station_too_long_iff:
  assumes up: "hdr_upto env conv 5 hs = Inr d"
    and line: "5 < length hs" "startswith (hs ! 5) (hdrnames ! 5)"
      "2 < length (split_ws str_isspace (hs ! 5))"
  shows "read_knet_hdr env conv hs = Inl (KNETException too_long_msg)
     \<longleftrightarrow> 7 < length (fst (split_stnm conv (tok hs 5 2)))"
proof (cases "7 < length (fst (split_stnm conv (tok hs 5 2)))")
  case True
  then have "hdr_station conv hs d = Inl (KNETException too_long_msg)"
    using line by (simp add: hdr_station_def hdr_flds_def getitem_def prep_hdr_line_def tok_def
        split_beta)
  with up True show ?thesis by (simp add: read_knet_hdr_at [of 5] hdr_blocks_def)
next
  case False
  then have "hdr_station conv hs d =
      Inr (setitem ''location'' (VStr (snd (split_stnm conv (tok hs 5 2))))
            (setitem ''station'' (VStr (fst (split_stnm conv (tok hs 5 2)))) d))"
    using line by (simp add: hdr_station_def hdr_flds_def getitem_def prep_hdr_line_def tok_def
        split_beta)
  with up False show ?thesis
    using after_station_not_too_long [of env conv hs]
    by (simp add: read_knet_hdr_at [of 5] hdr_blocks_def)
qed

text \<open>
  C7. In a header that parses, with the conversion enabled and a station token (token
  2 of the "Station Code" line) of more than 5 characters, the location is the last
  two characters of the token and the station is the rest; otherwise the station is
  the whole token and the location is empty. When parsing reaches the station line
  and the line has its label and its token, it raises the KNETException "Station
  name can't be more than 7 characters long!" exactly when the station, after that
  split, has more than 7 characters.
\<close>

theorem station_code_split:
  "(read_knet_hdr env conv hdrlines = Inr h \<longrightarrow>
      (if conv \<and> 5 < length (tok hdrlines 5 2)
       then map_of h ''location'' =
              Some (VStr (drop (length (tok hdrlines 5 2) - 2) (tok hdrlines 5 2)))
          \<and> map_of h ''station'' =
              Some (VStr (take (length (tok hdrlines 5 2) - 2) (tok hdrlines 5 2)))
       else map_of h ''station'' = Some (VStr (tok hdrlines 5 2))
          \<and> map_of h ''location'' = Some (VStr [])))
   \<and> (hdr_upto env conv 5 hdrlines = Inr d \<and> 5 < length hdrlines
        \<and> startswith (hdrlines ! 5) (hdrnames ! 5)
        \<and> 2 < length (split_ws str_isspace (hdrlines ! 5)) \<longrightarrow>
        (read_knet_hdr env conv hdrlines =
           Inl (KNETException ''Station name can't be more than 7 characters long!'')
         \<longleftrightarrow> 7 < (if conv \<and> 5 < length (tok hdrlines 5 2)
                  then length (tok hdrlines 5 2) - 2 else length (tok hdrlines 5 2))))"
proof (intro conjI impI)
  assume "read_knet_hdr env conv hdrlines = Inr h"
  from station_after [OF this]
  show "if conv \<and> 5 < length (tok hdrlines 5 2)
       then map_of h ''location'' =
              Some (VStr (drop (length (tok hdrlines 5 2) - 2) (tok hdrlines 5 2)))
          \<and> map_of h ''station'' =
              Some (VStr (take (length (tok hdrlines 5 2) - 2) (tok hdrlines 5 2)))
       else map_of h ''station'' = Some (VStr (tok hdrlines 5 2))
          \<and> map_of h ''location'' = Some (VStr [])"
    by (simp add: split_stnm_def)
next
  assume a: "hdr_upto env conv 5 hdrlines = Inr d \<and> 5 < length hdrlines
        \<and> startswith (hdrlines ! 5) (hdrnames ! 5)
        \<and> 2 < length (split_ws str_isspace (hdrlines ! 5))"
  have "length (fst (split_stnm conv (tok hdrlines 5 2))) =
      (if conv \<and> 5 < length (tok hdrlines 5 2)
       then length (tok hdrlines 5 2) - 2 else length (tok hdrlines 5 2))"
    by (simp add: split_stnm_def)
  with station_too_long_iff [of env conv hdrlines d] a
  show "read_knet_hdr env conv hdrlines =
           Inl (KNETException ''Station name can't be more than 7 characters long!'')
         \<longleftrightarrow> 7 < (if conv \<and> 5 < length (tok hdrlines 5 2)
                  then length (tok hdrlines 5 2) - 2 else length (tok hdrlines 5 2))"
    by (simp add: too_long_msg_def)
qed

theorem station_code_witness:
  "read_knet_hdr ref_env True ex_st8 = Inr (ex_dict ''ABCDEF'' ''GH'')
   \<and> tok ex_st8 5 2 = ''ABCDEFGH''
   \<and> map_of (ex_dict ''ABCDEF'' ''GH'') ''station'' = Some (VStr ''ABCDEF'')
   \<and> map_of (ex_dict ''ABCDEF'' ''GH'') ''location'' = Some (VStr ''GH'')
   \<and> tok ex_st10 5 2 = ''ABCDEFGHIJ''
   \<and> read_knet_hdr ref_env True ex_st10 =
       Inl (KNETException ''Station name can't be more than 7 characters long!'')"
proof -
  have l8: "ex_st8 ! 5 = ''Station Code ABCDEFGH\<newline>''" "length ex_st8 = 17"
    by (simp_all add: ex_st8_def)
  have l10: "ex_st10 ! 5 = ''Station Code ABCDEFGHIJ\<newline>''" "length ex_st10 = 17"
    by (simp_all add: ex_st10_def)
  have t8: "tok ex_st8 5 2 = ''ABCDEFGH''"
    by (simp add: tok_def l8 split_ws_def str_isspace_def)
  have t10: "tok ex_st10 5 2 = ''ABCDEFGHIJ''"
    by (simp add: tok_def l10 split_ws_def str_isspace_def)
  have s8: "hdr_station True ex_st8 d =
      Inr (setitem ''location'' (VStr ''GH'') (setitem ''station'' (VStr ''ABCDEF'') d))"
    for d :: "rat dict"
    by (simp add: hdr_station_def hdr_flds_def getitem_def l8 eval_defs)
  have r8: "read_knet_hdr ref_env True ex_st8 = Inr (ex_dict ''ABCDEF'' ''GH'')"
  proof (rule ex_variant)
    show "length ex_st8 = 17" by (rule l8(2))
    show "ex_st8 ! i = ex_hdr ! i" if "i < 17" "i \<noteq> 5" for i
      using that by (simp add: ex_st8_def)
    show "hdr_station True ex_st8 d =
        Inr (setitem ''location'' (VStr ''GH'') (setitem ''station'' (VStr ''ABCDEF'') d))"
      for d :: "rat dict" by (rule s8)
  qed
  have m8: "map_of (ex_dict ''ABCDEF'' ''GH'') ''station'' = Some (VStr ''ABCDEF'')"
    "map_of (ex_dict ''ABCDEF'' ''GH'') ''location'' = Some (VStr ''GH'')"
    by (simp_all add: ex_dict_def)
  obtain d where u10: "hdr_upto ref_env True 5 ex_st10 = Inr d"
    using ex_upto_variant [of 5 ex_st10 True]
    by (auto simp: ex_st10_def getitem_def)
  have p10: "startswith (ex_st10 ! 5) (hdrnames ! 5)"
    "2 < length (split_ws str_isspace (ex_st10 ! 5))"
    by (simp_all add: l10 startswith_def hdrnames_def split_ws_def str_isspace_def)
  have r10: "read_knet_hdr ref_env True ex_st10 =
       Inl (KNETException ''Station name can't be more than 7 characters long!'')"
    using station_code_split [of ref_env True ex_st10 "[]" d] u10 p10 l10(2) t10
    by simp
  show ?thesis
    using station_code_split [of ref_env True ex_st8 "ex_dict ''ABCDEF'' ''GH''" "[]"]
      r8 t8 m8 t10 r10
    by (simp only: simp_thms)
qed

lemma calib_of_Inr:
  "calib_of env eqn = Inr c \<longleftrightarrow>
     (\<exists>num denom n d. split_sep CHR ''/'' eqn = [num, denom]
        \<and> float_str env (leading_digits num) = Some n \<and> float_str env denom = Some d
        \<and> float_div env (float_mul env (float_0_01 env) n) d = Some c)"
  by (auto simp: calib_of_def bind_eq_Inr py_float_def py_div_def
      split: list.splits option.splits)

lemma calib_after:
  assumes "read_knet_hdr env conv hs = Inr h"
  shows "\<exists>c. calib_of env (tok hs 13 2) = Inr c \<and> map_of h ''calib'' = Some (VFloat c)"
proof -
  from read_knet_hdr_split [of 13, OF _ assms]
  obtain d1 d2 where b: "(hdr_blocks env conv ! 13) hs d1 = Inr d2"
    and r: "run_blocks (drop (Suc 13) (hdr_blocks env conv)) hs d2 = Inr h"
    by auto
  from b obtain c where 1: "calib_of env (tok hs 13 2) = Inr c"
    and 2: "d2 = setitem ''calib'' (VFloat c) d1"
    by (auto simp: hdr_blocks_def hdr_calib_def bind_eq_Inr hdr_flds_Inr getitem_def tok_def
        split: if_splits)
  have "map_of h ''calib'' = map_of d2 ''calib''"
    using _ r by (rule run_blocks_frame) (auto simp: hdr_blocks_def elim: top_frames)
  with 1 2 show ?thesis by (simp add: map_of_setitem)
qed

lemma calib_of_malformed:
  assumes "length (split_sep CHR ''/'' eqn) \<noteq> 2
    \<or> float_str env (leading_digits (split_sep CHR ''/'' eqn ! 0)) = None
    \<or> float_str env (split_sep CHR ''/'' eqn ! 1) = None"
  shows "calib_of env eqn = Inl ValueError"
proof (cases "split_sep CHR ''/'' eqn")
  case Nil
  then show ?thesis by (simp add: calib_of_def)
next
  case (Cons num rest)
  show ?thesis
  proof (cases rest)
    case Nil
    with Cons show ?thesis by (simp add: calib_of_def)
  next
    case (Cons denom rest')
    show ?thesis
    proof (cases rest')
      case Nil
      with Cons \<open>split_sep CHR ''/'' eqn = num # rest\<close> assms show ?thesis
        by (auto simp: calib_of_def py_float_def bind_def split: option.splits)
    next
      case (Cons x xs)
      with \<open>rest = denom # rest'\<close> \<open>split_sep CHR ''/'' eqn = num # rest\<close> show ?thesis
        by (simp add: calib_of_def)
    qed
  qed
qed

lemma calib_malformed_header:
  assumes "calib_of env (tok hs 13 2) = Inl ValueError"
  shows "(\<exists>e. read_knet_hdr env conv hs = Inl e)
    \<and> (\<forall>d. hdr_upto env conv 13 hs = Inr d \<and> 13 < length hs
            \<and> startswith (hs ! 13) (hdrnames ! 13)
            \<and> 2 < length (split_ws str_isspace (hs ! 13))
          \<longrightarrow> read_knet_hdr env conv hs = Inl ValueError)"
proof (intro conjI allI impI)
  show "\<exists>e. read_knet_hdr env conv hs = Inl e"
  proof (cases "read_knet_hdr env conv hs")
    case (Inl e)
    then show ?thesis by simp
  next
    case (Inr h)
    then show ?thesis using calib_after [OF Inr] assms by auto
  qed
next
  fix d
  assume a: "hdr_upto env conv 13 hs = Inr d \<and> 13 < length hs
      \<and> startswith (hs ! 13) (hdrnames ! 13) \<and> 2 < length (split_ws str_isspace (hs ! 13))"
  with assms have "hdr_calib env hs d = Inl ValueError"
    by (simp add: hdr_calib_def hdr_flds_def getitem_def prep_hdr_line_def tok_def)
  with a show "read_knet_hdr env conv hs = Inl ValueError"
    by (simp add: read_knet_hdr_at [of 13] hdr_blocks_def)
qed

lemma header_error_is_result:
  assumes "list_all (\<lambda>l. is_line l \<and> ascii l \<and> \<not> startswith l ''Memo'') pre"
    and "is_line l" and "ascii l" and "startswith l ''Memo''"
    and "read_knet_hdr env conv (pre @ [l]) = Inl e"
  shows "internal_read_knet_ascii env conv (concat pre @ l @ body) = Inl e"
  using read_header_lines [OF assms(1-4), of env conv body "[]"] assms(5)
  by (simp add: internal_read_knet_ascii_def)

text \<open>
  C9. In a header that parses, the scale-factor token (token 2 of the "Scale Factor"
  line) splits on "/" into exactly a numerator and a denominator, and the
  calibration is 0.01 times the float of the numerator's leading run of digits,
  divided by the float of the whole denominator. If the token does not split into
  exactly two parts, or one of the two is no float, parsing returns no header: when
  it reaches the line it raises ValueError. An exception of the header parser is the
  result of reading the file, so no trace is returned.
\<close>

theorem calibration_factor:
  "(read_knet_hdr env conv hdrlines = Inr h \<longrightarrow>
      (\<exists>num denom n d c. split_sep CHR ''/'' (tok hdrlines 13 2) = [num, denom]
         \<and> float_str env (takeWhile isdigit num) = Some n
         \<and> float_str env denom = Some d
         \<and> float_div env (float_mul env (float_0_01 env) n) d = Some c
         \<and> map_of h ''calib'' = Some (VFloat c)))
   \<and> (length (split_sep CHR ''/'' (tok hdrlines 13 2)) \<noteq> 2
        \<or> float_str env (takeWhile isdigit (split_sep CHR ''/'' (tok hdrlines 13 2) ! 0)) = None
        \<or> float_str env (split_sep CHR ''/'' (tok hdrlines 13 2) ! 1) = None \<longrightarrow>
        (\<exists>e. read_knet_hdr env conv hdrlines = Inl e)
        \<and> (\<forall>d. hdr_upto env conv 13 hdrlines = Inr d \<and> 13 < length hdrlines
                \<and> startswith (hdrlines ! 13) (hdrnames ! 13)
                \<and> 2 < length (split_ws str_isspace (hdrlines ! 13))
              \<longrightarrow> read_knet_hdr env conv hdrlines = Inl ValueError))
   \<and> (list_all (\<lambda>l. is_line l \<and> ascii l \<and> \<not> startswith l ''Memo'') pre
        \<and> is_line l \<and> ascii l \<and> startswith l ''Memo''
        \<and> read_knet_hdr env conv (pre @ [l]) = Inl e \<longrightarrow>
        internal_read_knet_ascii env conv (concat pre @ l @ body) = Inl e)"
proof (intro conjI impI)
  assume ok: "read_knet_hdr env conv hdrlines = Inr h"
  from calib_after [OF ok]
  show "\<exists>num denom n d c. split_sep CHR ''/'' (tok hdrlines 13 2) = [num, denom]
         \<and> float_str env (takeWhile isdigit num) = Some n
         \<and> float_str env denom = Some d
         \<and> float_div env (float_mul env (float_0_01 env) n) d = Some c
         \<and> map_of h ''calib'' = Some (VFloat c)"
    by (auto simp: calib_of_Inr leading_digits_def)
next
  assume bad: "length (split_sep CHR ''/'' (tok hdrlines 13 2)) \<noteq> 2
        \<or> float_str env (takeWhile isdigit (split_sep CHR ''/'' (tok hdrlines 13 2) ! 0)) = None
        \<or> float_str env (split_sep CHR ''/'' (tok hdrlines 13 2) ! 1) = None"
  then have c: "calib_of env (tok hdrlines 13 2) = Inl ValueError"
    by (intro calib_of_malformed) (simp add: leading_digits_def)
  from calib_malformed_header [OF c]
  show "\<exists>e. read_knet_hdr env conv hdrlines = Inl e" by blast
  from calib_malformed_header [OF c]
  show "\<forall>d. hdr_upto env conv 13 hdrlines = Inr d \<and> 13 < length hdrlines
                \<and> startswith (hdrlines ! 13) (hdrnames ! 13)
                \<and> 2 < length (split_ws str_isspace (hdrlines ! 13))
              \<longrightarrow> read_knet_hdr env conv hdrlines = Inl ValueError" by blast
next
  assume "list_all (\<lambda>l. is_line l \<and> ascii l \<and> \<not> startswith l ''Memo'') pre
        \<and> is_line l \<and> ascii l \<and> startswith l ''Memo''
        \<and> read_knet_hdr env conv (pre @ [l]) = Inl e"
  then show "internal_read_knet_ascii env conv (concat pre @ l @ body) = Inl e"
    by (intro header_error_is_result) simp_all
qed

theorem calibration_witness:
  "read_knet_hdr ref_env False ex_hdr = Inr (ex_dict ''AKT012'' '''')
   \<and> tok ex_hdr 13 2 = ''2000(gal)/8388608''
   \<and> split_sep CHR ''/'' ''2000(gal)/8388608'' = [''2000(gal)'', ''8388608'']
   \<and> map_of (ex_dict ''AKT012'' '''') ''calib'' = Some (VFloat (1 / 100 * 2000 / 8388608))
   \<and> calib_of ref_env ''2000/8388608'' = Inr (1 / 100 * 2000 / 8388608)
   \<and> tok ex_bad_scale 13 2 = ''2000(gal)''
   \<and> split_sep CHR ''/'' ''2000(gal)'' = [''2000(gal)'']
   \<and> read_knet_hdr ref_env False ex_bad_scale = Inl ValueError
   \<and> internal_read_knet_ascii ref_env False (concat ex_bad_scale @ ex_body) = Inl ValueError"
proof -
  have 1: "read_knet_hdr ref_env False ex_hdr = Inr (ex_dict ''AKT012'' '''')"
    by (simp add: ex_hdr_result)
  have 2: "tok ex_hdr 13 2 = ''2000(gal)/8388608''"
    by (simp add: tok_def ex_hdr_def split_ws_def str_isspace_def)
  have 3: "split_sep CHR ''/'' ''2000(gal)/8388608'' = [''2000(gal)'', ''8388608'']"
    by simp
  have 4: "map_of (ex_dict ''AKT012'' '''') ''calib'' = Some (VFloat (1 / 100 * 2000 / 8388608))"
    by (simp add: ex_dict_def)
  have 5: "calib_of ref_env ''2000/8388608'' = Inr (1 / 100 * 2000 / 8388608)"
    by (simp add: eval_defs)
  have l: "ex_bad_scale ! 13 = ''Scale Factor 2000(gal)\<newline>''" "length ex_bad_scale = 17"
    by (simp_all add: ex_bad_scale_def)
  have 6: "tok ex_bad_scale 13 2 = ''2000(gal)''"
    by (simp add: tok_def l split_ws_def str_isspace_def)
  have 7: "split_sep CHR ''/'' ''2000(gal)'' = [''2000(gal)'']"
    by simp
  obtain d where u: "hdr_upto ref_env False 13 ex_bad_scale = Inr d"
    using ex_upto_variant [of 13 ex_bad_scale False]
    by (auto simp: ex_bad_scale_def getitem_def)
  have p: "startswith (ex_bad_scale ! 13) (hdrnames ! 13)"
    "2 < length (split_ws str_isspace (ex_bad_scale ! 13))"
    by (simp_all add: l startswith_def hdrnames_def split_ws_def str_isspace_def)
  have 8: "read_knet_hdr ref_env False ex_bad_scale = Inl ValueError"
    using calibration_factor [of ref_env False ex_bad_scale "[]" "[]" "[]" ValueError "[]"]
      u p l(2) 6 7
    by simp
  have pre: "list_all (\<lambda>l. is_line l \<and> ascii l \<and> \<not> startswith l ''Memo'') (take 16 ex_bad_scale)"
    by (simp add: ex_bad_scale_def ex_hdr_def is_line_def ascii_def startswith_def)
  have last: "is_line (ex_bad_scale ! 16)" "ascii (ex_bad_scale ! 16)"
    "startswith (ex_bad_scale ! 16) ''Memo''"
    by (simp_all add: ex_bad_scale_def ex_hdr_def is_line_def ascii_def startswith_def)
  have "take (Suc 16) ex_bad_scale = take 16 ex_bad_scale @ [ex_bad_scale ! 16]"
    by (rule take_Suc_conv_app_nth) (simp add: l)
  then have eq: "ex_bad_scale = take 16 ex_bad_scale @ [ex_bad_scale ! 16]"
    by (simp add: l)
  have h8: "read_knet_hdr ref_env False (take 16 ex_bad_scale @ [ex_bad_scale ! 16])
      = Inl ValueError"
    using 8 eq by simp
  have "internal_read_knet_ascii ref_env False
      (concat (take 16 ex_bad_scale) @ ex_bad_scale ! 16 @ ex_body) = Inl ValueError"
    using calibration_factor [of ref_env False "[]" "[]" "take 16 ex_bad_scale"
        "ex_bad_scale ! 16" ValueError ex_body] pre last h8
    by (simp only: simp_thms)
  moreover have "concat ex_bad_scale = concat (take 16 ex_bad_scale) @ ex_bad_scale ! 16"
    by (subst eq) simp
  ultimately have 9: "internal_read_knet_ascii ref_env False (concat ex_bad_scale @ ex_body)
      = Inl ValueError"
    by simp
  show ?thesis
    using calibration_factor [of ref_env False ex_hdr "ex_dict ''AKT012'' ''''" "[]" "[]"
        ValueError "[]"] 1 2 3 4 5 6 7 8 9
    by (simp only: simp_thms)
qed

end
